theory Spec2Isabelle
  imports Main
begin

section \<open>Device type propagation over the TorchScript graph IR\<close>

text \<open>
  A shallow embedding of \<^verbatim>\<open>torch/csrc/jit/passes/device_type_analysis.cpp\<close>.
  The pass walks the nodes of a graph and writes a device annotation into the
  tensor type of node outputs. Values are shared, mutable objects of the graph:
  they are modelled by their identity and a store that maps each identity to its
  current type. Every exception the C++ can raise (\<^verbatim>\<open>expect<TensorType>\<close>,
  \<^verbatim>\<open>.at(i)\<close>, \<^verbatim>\<open>TORCH_INTERNAL_ASSERT\<close>) is a value of type \<open>error\<close>.
\<close>

subsection \<open>Devices, types and constants\<close>

text \<open>
  Modelled from the spec: \<^verbatim>\<open>c10::Device\<close> (c10/core/Device.h is not part of the
  sources). A device is a device type and an index, compared by equality, with the
  predicate \<^verbatim>\<open>is_cpu\<close> for the default host location.
\<close>

datatype DeviceType = CPU | CUDA | OtherDeviceType nat

datatype Device = Device (device_type: DeviceType) (device_index: int)

definition is_cpu :: "Device \<Rightarrow> bool" where
  "is_cpu d = (device_type d = CPU)"

text \<open>
  Modelled from the spec: the tensor type (ATen/core/jit_type.h is not part of the
  sources) as far as the pass touches it: the optional device, the optional rank
  (\<^verbatim>\<open>symbolic_sizes().rank()\<close>) and, standing for all the fields the pass never
  reads, the optional scalar type. \<^verbatim>\<open>withDevice\<close> replaces the device and nothing else.
  The other types are those a schema parameter or a value can have.
\<close>

record TensorType =
  device :: "Device option"
  rank :: "nat option"
  scalar_type :: "nat option"

definition withDevice :: "TensorType \<Rightarrow> Device option \<Rightarrow> TensorType" where
  "withDevice tt dev = tt\<lparr>device := dev\<rparr>"

datatype Type =
    Tensor TensorType
  | DeviceObjType
  | NoneType
  | IntType
  | BoolType
  | StringType
  | AnyType
  | OptionalType Type
  | ListType Type

text \<open>\<^verbatim>\<open>type->cast<TensorType>()\<close>: the tensor type, or null.\<close>

fun cast_TensorType :: "Type \<Rightarrow> TensorType option" where
  "cast_TensorType (Tensor tt) = Some tt"
| "cast_TensorType _ = None"

datatype error = ExpectFailed | OutOfRange | AssertFailed

text \<open>\<^verbatim>\<open>type->expect<TensorType>()\<close>: the tensor type, or an internal assertion failure.\<close>

fun expect_TensorType :: "Type \<Rightarrow> error + TensorType" where
  "expect_TensorType (Tensor tt) = Inr tt"
| "expect_TensorType _ = Inl ExpectFailed"

text \<open>
  Modelled from the spec: the subtype check of the type system (ATen/core/jit_type.h
  is not part of the sources), \<open>isSubtypeOf t u\<close> for \<^verbatim>\<open>t->isSubtypeOf(u)\<close>: every type
  is a subtype of itself, of \<^verbatim>\<open>Any\<close> and of the optional of any of its supertypes;
  \<^verbatim>\<open>None\<close> is a subtype of every optional type, and an optional type only of \<^verbatim>\<open>Any\<close> and
  of the optionals of its element's supertypes.
\<close>

fun isSubtypeOf :: "Type \<Rightarrow> Type \<Rightarrow> bool" where
  "isSubtypeOf t AnyType = True"
| "isSubtypeOf NoneType (OptionalType u) = True"
| "isSubtypeOf (OptionalType t) (OptionalType u) = isSubtypeOf t u"
| "isSubtypeOf t (OptionalType u) = isSubtypeOf t u"
| "isSubtypeOf t u = (t = u)"

text \<open>
  Modelled from the spec: a constant as \<^verbatim>\<open>toIValue\<close> returns it (ATen/core/ivalue.h is
  not part of the sources), with the tests \<^verbatim>\<open>isNone\<close> and \<^verbatim>\<open>isDevice\<close>.
\<close>

datatype IValue = IVNone | IVDevice Device | IVInt int | IVString string

fun isNone :: "IValue \<Rightarrow> bool" where
  "isNone IVNone = True"
| "isNone _ = False"

fun isDevice :: "IValue \<Rightarrow> bool" where
  "isDevice (IVDevice d) = True"
| "isDevice _ = False"

subsection \<open>Graph, blocks, nodes and values\<close>

text \<open>
  Modelled from the spec: the graph IR (torch/csrc/jit/ir/ir.h is not part of the
  sources). A \<^verbatim>\<open>Value*\<close> is the identity of a value; its type is read from and
  written to the store. A node has its kind, its inputs and outputs, its blocks, the
  schema of \<^verbatim>\<open>maybeSchema()\<close> (None for a null pointer) and whether \<^verbatim>\<open>maybeOperator()\<close>
  finds an operator. A block has its nodes in order and its exit values
  (\<^verbatim>\<open>Block::outputs()\<close>); a graph has its top-level block.
\<close>

type_synonym Value = nat

type_synonym store = "Value \<Rightarrow> Type"

datatype NodeKind =
    prim_If
  | prim_Loop
  | prim_CallMethod
  | prim_CallFunction
  | prim_Constant
  | prim_ListConstruct
  | prim_ListUnpack
  | prim_other string
  | aten string

fun is_aten :: "NodeKind \<Rightarrow> bool" where
  "is_aten (aten name) = True"
| "is_aten _ = False"

datatype Argument = Argument (arg_name: string) (arg_type: Type)

datatype FunctionSchema = FunctionSchema (arguments: "Argument list")

datatype Node =
  Node (kind: NodeKind) (inputs: "Value list") (outputs: "Value list")
       (blocks: "Block list") (maybeSchema: "FunctionSchema option") (maybeOperator: bool)
and Block =
  Block (nodes: "Node list") (block_outputs: "Value list")

datatype Graph = Graph (block: Block)

subsection \<open>Writing a device\<close>

text \<open>
  \<^verbatim>\<open>setDeviceType\<close>: the value must be tensor-typed (\<^verbatim>\<open>expect\<close>); its type is replaced
  only when the device differs, and the result says whether it did.
\<close>

definition setDeviceType :: "Value \<Rightarrow> Device option \<Rightarrow> store \<Rightarrow> error + (bool \<times> store)" where
  "setDeviceType v dev s =
     (case expect_TensorType (s v) of
        Inl e \<Rightarrow> Inl e
      | Inr tensor_type \<Rightarrow>
          (let changed = (device tensor_type \<noteq> dev) in
           if changed then Inr (changed, s(v := Tensor (withDevice tensor_type dev)))
           else Inr (changed, s)))"

text \<open>The loop of \<^verbatim>\<open>setReturnsToDevice\<close> over the outputs that remain.\<close>

fun setReturnsToDevice_loop ::
  "Value list \<Rightarrow> Device option \<Rightarrow> bool \<Rightarrow> store \<Rightarrow> error + (bool \<times> store)" where
  "setReturnsToDevice_loop [] dev changed s = Inr (changed, s)"
| "setReturnsToDevice_loop (out # outs) dev changed s =
     (case cast_TensorType (s out) of
        None \<Rightarrow> setReturnsToDevice_loop outs dev changed s
      | Some tensor_type \<Rightarrow>
          (case setDeviceType out dev s of
             Inl e \<Rightarrow> Inl e
           | Inr (c, s') \<Rightarrow> setReturnsToDevice_loop outs dev (changed \<or> c) s'))"

definition setReturnsToDevice :: "Node \<Rightarrow> Device option \<Rightarrow> store \<Rightarrow> error + (bool \<times> store)" where
  "setReturnsToDevice n dev s = setReturnsToDevice_loop (outputs n) dev False s"

subsection \<open>Resolving the device from the operands\<close>

text \<open>
  The loop of \<^verbatim>\<open>propWithNoDevice\<close> over the inputs that remain, with the three locals
  \<^verbatim>\<open>device\<close>, \<^verbatim>\<open>seen_any_device\<close> and \<^verbatim>\<open>only_seen_cpu_zerodim\<close>. A mismatch returns
  from inside the loop.
\<close>

definition is_cpu_zerodim :: "TensorType \<Rightarrow> bool" where
  "is_cpu_zerodim tensor_type =
     (let is_zerodim = (rank tensor_type = Some 0);
          is_cpu = (case device tensor_type of None \<Rightarrow> False | Some d \<Rightarrow> is_cpu d)
      in is_zerodim \<and> is_cpu)"

fun propWithNoDevice_loop ::
  "Node \<Rightarrow> Value list \<Rightarrow> Device option \<Rightarrow> bool \<Rightarrow> bool \<Rightarrow> store \<Rightarrow> error + (bool \<times> store)" where
  "propWithNoDevice_loop n [] dev seen_any_device only_seen_cpu_zerodim s =
     setReturnsToDevice n dev s"
| "propWithNoDevice_loop n (inp # inps) dev seen_any_device only_seen_cpu_zerodim s =
     (case cast_TensorType (s inp) of
        None \<Rightarrow> propWithNoDevice_loop n inps dev seen_any_device only_seen_cpu_zerodim s
      | Some tensor_type \<Rightarrow>
          if seen_any_device then
            (if dev \<noteq> device tensor_type \<and> \<not> is_cpu_zerodim tensor_type then
               (if only_seen_cpu_zerodim then
                  propWithNoDevice_loop n inps (device tensor_type) seen_any_device False s
                else setReturnsToDevice n None s)
             else propWithNoDevice_loop n inps dev seen_any_device only_seen_cpu_zerodim s)
          else
            propWithNoDevice_loop n inps (device tensor_type) True
              (is_cpu_zerodim tensor_type) s)"

definition propWithNoDevice :: "Node \<Rightarrow> store \<Rightarrow> error + (bool \<times> store)" where
  "propWithNoDevice n s = propWithNoDevice_loop n (inputs n) None False False s"

subsection \<open>The device argument of an operator\<close>

text \<open>
  The loop of \<^verbatim>\<open>defaultDeviceProp\<close> over the schema arguments that remain, \<open>i\<close> the
  index of the first of them. \<open>toIValue\<close> is the constant lookup of the IR
  (torch/csrc/jit/ir/constants.h, not part of the sources): None when the value
  is not a constant. The tests \<^verbatim>\<open>isNone\<close> and \<^verbatim>\<open>isDevice\<close> on the constant are the
  cases of its constructor, in the order of the source; \<^verbatim>\<open>.at(i)\<close> raises when the node
  has no input at the position of the parameter.
\<close>

fun defaultDeviceProp_loop ::
  "(Value \<Rightarrow> IValue option) \<Rightarrow> Node \<Rightarrow> Argument list \<Rightarrow> nat \<Rightarrow> store \<Rightarrow> error + (bool \<times> store)" where
  "defaultDeviceProp_loop toIValue n [] i s = propWithNoDevice n s"
| "defaultDeviceProp_loop toIValue n (argument # rest) i s =
     (if isSubtypeOf DeviceObjType (arg_type argument) then
        (if i < length (inputs n) then
           (case toIValue (inputs n ! i) of
              None \<Rightarrow> Inr (False, s)
            | Some input_val \<Rightarrow>
                (case input_val of
                   IVNone \<Rightarrow> defaultDeviceProp_loop toIValue n rest (Suc i) s
                 | IVDevice d \<Rightarrow> setReturnsToDevice n (Some d) s
                 | _ \<Rightarrow> Inr (False, s)))
         else Inl OutOfRange)
      else defaultDeviceProp_loop toIValue n rest (Suc i) s)"

definition defaultDeviceProp ::
  "(Value \<Rightarrow> IValue option) \<Rightarrow> Node \<Rightarrow> store \<Rightarrow> error + (bool \<times> store)" where
  "defaultDeviceProp toIValue n s =
     (case maybeSchema n of
        None \<Rightarrow> Inr (False, s)
      | Some schema \<Rightarrow> defaultDeviceProp_loop toIValue n (arguments schema) 0 s)"

subsection \<open>The pass\<close>

text \<open>
  The loop of \<^verbatim>\<open>mergeAndApplyTensorProps\<close>; the two assertions before it make the
  three lists equally long, so position \<open>i\<close> of the C++ loop is the head of each list.
\<close>

fun mergeAndApplyTensorProps_loop ::
  "Value list \<Rightarrow> Value list \<Rightarrow> Value list \<Rightarrow> bool \<Rightarrow> store \<Rightarrow> error + (bool \<times> store)" where
  "mergeAndApplyTensorProps_loop (a # src1) (b # src2) (d # dst) changed s =
     (case cast_TensorType (s a) of
        None \<Rightarrow> mergeAndApplyTensorProps_loop src1 src2 dst changed s
      | Some src1_type \<Rightarrow>
          (case cast_TensorType (s b) of
             None \<Rightarrow> mergeAndApplyTensorProps_loop src1 src2 dst changed s
           | Some src2_type \<Rightarrow>
               (case (if device src1_type = None \<or> device src2_type = None
                          \<or> device src1_type \<noteq> device src2_type
                      then setDeviceType d None s
                      else setDeviceType d (device src1_type) s) of
                  Inl e \<Rightarrow> Inl e
                | Inr (c, s') \<Rightarrow> mergeAndApplyTensorProps_loop src1 src2 dst (changed \<or> c) s')))"
| "mergeAndApplyTensorProps_loop src1 src2 dst changed s = Inr (changed, s)"

definition mergeAndApplyTensorProps ::
  "Value list \<Rightarrow> Value list \<Rightarrow> Value list \<Rightarrow> store \<Rightarrow> error + (bool \<times> store)" where
  "mergeAndApplyTensorProps src1 src2 dst s =
     (if length src1 \<noteq> length src2 then Inl AssertFailed
      else if length src1 \<noteq> length dst then Inl AssertFailed
      else mergeAndApplyTensorProps_loop src1 src2 dst False s)"

text \<open>\<^verbatim>\<open>processAtenOps\<close>: the only place that updates the member \<^verbatim>\<open>changed_\<close>.\<close>

definition processAtenOps ::
  "(Value \<Rightarrow> IValue option) \<Rightarrow> Node \<Rightarrow> bool \<times> store \<Rightarrow> error + (bool \<times> store)" where
  "processAtenOps toIValue n st =
     (case st of (changed_, s) \<Rightarrow>
        if \<not> maybeOperator n then Inr (changed_, s)
        else (case defaultDeviceProp toIValue n s of
                Inl e \<Rightarrow> Inl e
              | Inr (c, s') \<Rightarrow> Inr (changed_ \<or> c, s')))"

text \<open>
  \<^verbatim>\<open>processBlock\<close>, \<^verbatim>\<open>processNode\<close> and \<^verbatim>\<open>processIf\<close> (inlined in the \<^verbatim>\<open>prim::If\<close>
  case). The state is the member \<^verbatim>\<open>changed_\<close> and the store. The result of
  \<^verbatim>\<open>mergeAndApplyTensorProps\<close> is dropped by \<^verbatim>\<open>processIf\<close>: only its store is kept.
\<close>

fun processNode ::
  "(Value \<Rightarrow> IValue option) \<Rightarrow> Node \<Rightarrow> bool \<times> store \<Rightarrow> error + (bool \<times> store)"
and processNodes ::
  "(Value \<Rightarrow> IValue option) \<Rightarrow> Node list \<Rightarrow> bool \<times> store \<Rightarrow> error + (bool \<times> store)"
and processBlock ::
  "(Value \<Rightarrow> IValue option) \<Rightarrow> Block \<Rightarrow> bool \<times> store \<Rightarrow> error + (bool \<times> store)" where
  "processNode toIValue (Node k ins outs bs sch op) st =
     (case k of
        prim_If \<Rightarrow>
          (case bs of
             true_block # false_block # _ \<Rightarrow>
               (case processBlock toIValue true_block st of
                  Inl e \<Rightarrow> Inl e
                | Inr st1 \<Rightarrow>
                    (case processBlock toIValue false_block st1 of
                       Inl e \<Rightarrow> Inl e
                     | Inr (changed_, s2) \<Rightarrow>
                         (case mergeAndApplyTensorProps (block_outputs true_block)
                                 (block_outputs false_block) outs s2 of
                            Inl e \<Rightarrow> Inl e
                          | Inr (c, s3) \<Rightarrow> Inr (changed_, s3))))
           | _ \<Rightarrow> Inl OutOfRange)
      | prim_Loop \<Rightarrow> Inr st
      | prim_CallMethod \<Rightarrow> Inr st
      | prim_CallFunction \<Rightarrow> Inr st
      | _ \<Rightarrow>
          (let has_tensor_output = list_ex (\<lambda>v. cast_TensorType (snd st v) \<noteq> None) outs in
           if \<not> has_tensor_output then Inr st
           else (case k of
                   prim_Constant \<Rightarrow> Inr st
                 | prim_ListConstruct \<Rightarrow> Inr st
                 | prim_ListUnpack \<Rightarrow> Inr st
                 | _ \<Rightarrow>
                     if is_aten k then processAtenOps toIValue (Node k ins outs bs sch op) st
                     else Inr st)))"
| "processNodes toIValue [] st = Inr st"
| "processNodes toIValue (n # ns) st =
     (case processNode toIValue n st of
        Inl e \<Rightarrow> Inl e
      | Inr st' \<Rightarrow> processNodes toIValue ns st')"
| "processBlock toIValue (Block ns outs) st = processNodes toIValue ns st"

text \<open>\<^verbatim>\<open>run\<close> and the entry point \<^verbatim>\<open>DeviceTypePropagation\<close>: \<^verbatim>\<open>changed_\<close> starts false.\<close>

definition run :: "(Value \<Rightarrow> IValue option) \<Rightarrow> Graph \<Rightarrow> store \<Rightarrow> error + (bool \<times> store)" where
  "run toIValue graph s = processBlock toIValue (block graph) (False, s)"

definition DeviceTypePropagation ::
  "(Value \<Rightarrow> IValue option) \<Rightarrow> Graph \<Rightarrow> store \<Rightarrow> error + (bool \<times> store)" where
  "DeviceTypePropagation toIValue graph s = run toIValue graph s"

subsection \<open>Single assignment\<close>

text \<open>
  The graph IR is in single-assignment form: a value is the output of one node, and
  it is used only after that node. The values a node, a list of nodes or a block
  defines (the outputs of its nodes, nested blocks included) and uses (the inputs of
  its nodes and the exit values of its blocks), in program order.
\<close>

fun defs_node :: "Node \<Rightarrow> Value list"
and defs_nodes :: "Node list \<Rightarrow> Value list"
and defs_block :: "Block \<Rightarrow> Value list"
and defs_blocks :: "Block list \<Rightarrow> Value list" where
  "defs_node (Node k ins outs bs sch op) = outs @ defs_blocks bs"
| "defs_nodes [] = []"
| "defs_nodes (n # ns) = defs_node n @ defs_nodes ns"
| "defs_block (Block ns outs) = defs_nodes ns"
| "defs_blocks [] = []"
| "defs_blocks (b # bs) = defs_block b @ defs_blocks bs"

fun uses_node :: "Node \<Rightarrow> Value list"
and uses_nodes :: "Node list \<Rightarrow> Value list"
and uses_block :: "Block \<Rightarrow> Value list"
and uses_blocks :: "Block list \<Rightarrow> Value list" where
  "uses_node (Node k ins outs bs sch op) = ins @ uses_blocks bs"
| "uses_nodes [] = []"
| "uses_nodes (n # ns) = uses_node n @ uses_nodes ns"
| "uses_block (Block ns outs) = uses_nodes ns @ outs"
| "uses_blocks [] = []"
| "uses_blocks (b # bs) = uses_block b @ uses_blocks bs"

text \<open>
  Single assignment in program order: the outputs of a node are distinct, they are
  neither inputs of the node nor used or defined inside its blocks, and nothing that
  comes later (a later node, a later block of the same node) defines a value that was
  used or defined before.
\<close>

fun ssa_node :: "Node \<Rightarrow> bool"
and ssa_nodes :: "Node list \<Rightarrow> bool"
and ssa_block :: "Block \<Rightarrow> bool"
and ssa_blocks :: "Block list \<Rightarrow> bool" where
  "ssa_node (Node k ins outs bs sch op) =
     (distinct outs \<and> set outs \<inter> (set ins \<union> set (uses_blocks bs) \<union> set (defs_blocks bs)) = {}
      \<and> ssa_blocks bs)"
| "ssa_nodes [] = True"
| "ssa_nodes (n # ns) =
     (ssa_node n \<and> ssa_nodes ns \<and>
      set (defs_nodes ns) \<inter> (set (uses_node n) \<union> set (defs_node n)) = {})"
| "ssa_block (Block ns outs) = ssa_nodes ns"
| "ssa_blocks [] = True"
| "ssa_blocks (b # bs) =
     (ssa_block b \<and> ssa_blocks bs \<and>
      set (defs_blocks bs) \<inter> (set (uses_block b) \<union> set (defs_block b)) = {})"

subsection \<open>Closed forms of the writes\<close>

text \<open>
  What \<^verbatim>\<open>setReturnsToDevice\<close> leaves behind, written without the loop: every
  tensor-typed output carries the device, nothing else is touched; and its result,
  whether some tensor-typed output carried another device before.
\<close>

definition with_device :: "Device option \<Rightarrow> Type \<Rightarrow> Type" where
  "with_device dev t =
     (case cast_TensorType t of None \<Rightarrow> t | Some tt \<Rightarrow> Tensor (withDevice tt dev))"

definition set_outputs :: "Value list \<Rightarrow> Device option \<Rightarrow> store \<Rightarrow> store" where
  "set_outputs outs dev s = (\<lambda>v. if v \<in> set outs then with_device dev (s v) else s v)"

definition outputs_differ :: "Value list \<Rightarrow> Device option \<Rightarrow> store \<Rightarrow> bool" where
  "outputs_differ outs dev s =
     list_ex (\<lambda>v. case cast_TensorType (s v) of None \<Rightarrow> False | Some tt \<Rightarrow> device tt \<noteq> dev) outs"

subsection \<open>Example graphs\<close>

abbreviation cpu :: Device where "cpu \<equiv> Device CPU (-1)"
abbreviation cuda0 :: Device where "cuda0 \<equiv> Device CUDA 0"
abbreviation cuda1 :: Device where "cuda1 \<equiv> Device CUDA 1"

abbreviation tensor_on :: "Device option \<Rightarrow> nat option \<Rightarrow> Type" where
  "tensor_on dev r \<equiv> Tensor \<lparr>device = dev, rank = r, scalar_type = None\<rparr>"

text \<open>\<^verbatim>\<open>aten::to(Tensor self, Device? device, int? dtype)\<close> with output 0 and inputs 1, 2, 3.\<close>

abbreviation schema_to :: FunctionSchema where
  "schema_to \<equiv> FunctionSchema
     [Argument ''self'' (tensor_on None None),
      Argument ''device'' (OptionalType DeviceObjType),
      Argument ''dtype'' (OptionalType IntType)]"

abbreviation node_to :: Node where
  "node_to \<equiv> Node (aten ''to'') [1, 2, 3] [0] [] (Some schema_to) True"

abbreviation store_to :: store where
  "store_to \<equiv> (\<lambda>_. NoneType)(0 := tensor_on None None, 1 := tensor_on (Some cpu) (Some 2),
      2 := DeviceObjType, 3 := NoneType)"

text \<open>An operator with two optional device parameters.\<close>

abbreviation node_two_devices :: Node where
  "node_two_devices \<equiv> Node (aten ''to'') [1, 2, 3] [0] []
     (Some (FunctionSchema
        [Argument ''self'' (tensor_on None None),
         Argument ''device'' (OptionalType DeviceObjType),
         Argument ''other_device'' (OptionalType DeviceObjType)]))
     True"

text \<open>An operator with a plain device parameter after an integer parameter.\<close>

abbreviation node_full :: Node where
  "node_full \<equiv> Node (aten ''full_like'') [1, 2, 3] [0] []
     (Some (FunctionSchema
        [Argument ''self'' (tensor_on None None), Argument ''fill_value'' IntType,
         Argument ''device'' DeviceObjType]))
     True"

text \<open>An operator with four tensor operands 1, 2, 3, 4, the first two zero-rank on the CPU.\<close>

abbreviation node_addcmul :: Node where
  "node_addcmul \<equiv> Node (aten ''addcmul'') [1, 2, 3, 4] [0] []
     (Some (FunctionSchema
        [Argument ''self'' (tensor_on None None), Argument ''tensor1'' (tensor_on None None),
         Argument ''tensor2'' (tensor_on None None), Argument ''value'' (tensor_on None None)]))
     True"

abbreviation node_addcmul_reordered :: Node where
  "node_addcmul_reordered \<equiv> Node (aten ''addcmul'') [3, 1, 2, 4] [0] []
     (Some (FunctionSchema
        [Argument ''self'' (tensor_on None None), Argument ''tensor1'' (tensor_on None None),
         Argument ''tensor2'' (tensor_on None None), Argument ''value'' (tensor_on None None)]))
     True"

abbreviation store_abcd :: "Type \<Rightarrow> Type \<Rightarrow> store" where
  "store_abcd tc td \<equiv> (\<lambda>_. NoneType)(0 := tensor_on (Some cpu) None,
      1 := tensor_on (Some cpu) (Some 0), 2 := tensor_on (Some cpu) (Some 0), 3 := tc, 4 := td)"

text \<open>\<^verbatim>\<open>aten::add\<close> with operands on two CUDA devices and an output already annotated.\<close>

abbreviation node_add :: Node where
  "node_add \<equiv> Node (aten ''add'') [1, 2] [0] []
     (Some (FunctionSchema
        [Argument ''self'' (tensor_on None None), Argument ''other'' (tensor_on None None)]))
     True"

abbreviation store_add :: store where
  "store_add \<equiv> (\<lambda>_. NoneType)(0 := tensor_on (Some cuda0) None,
      1 := tensor_on (Some cuda0) (Some 2), 2 := tensor_on (Some cuda1) (Some 2))"

text \<open>A conditional with output 0 whose branches return the values 1 and 2.\<close>

abbreviation node_if :: Node where
  "node_if \<equiv> Node prim_If [3] [0] [Block [] [1], Block [] [2]] None False"

abbreviation store_if :: "Type \<Rightarrow> Type \<Rightarrow> Type \<Rightarrow> store" where
  "store_if t0 t1 t2 \<equiv> (\<lambda>_. NoneType)(0 := t0, 1 := t1, 2 := t2, 3 := BoolType)"

text \<open>
  A graph with an operator on the graph input 0, followed by a conditional on 1
  whose branches each apply an operator to the first result.
\<close>

abbreviation schema_unary :: FunctionSchema where
  "schema_unary \<equiv> FunctionSchema [Argument ''self'' (tensor_on None None)]"

abbreviation graph_relu_if :: Graph where
  "graph_relu_if \<equiv> Graph (Block
     [Node (aten ''relu'') [0] [2] [] (Some schema_unary) True,
      Node prim_If [1] [5]
        [Block [Node (aten ''relu'') [2] [3] [] (Some schema_unary) True] [3],
         Block [Node (aten ''neg'') [2] [4] [] (Some schema_unary) True] [4]]
        None False]
     [5])"

abbreviation store_relu_if :: store where
  "store_relu_if \<equiv> (\<lambda>_. NoneType)(0 := tensor_on (Some cuda0) (Some 2), 1 := BoolType,
     2 := tensor_on None None, 3 := tensor_on None None, 4 := tensor_on None None,
     5 := tensor_on None None)"

section \<open>Properties\<close>

subsection \<open>Writing a device\<close>

lemma cast_Some_iff: "cast_TensorType t = Some tt \<longleftrightarrow> t = Tensor tt"
  by (cases t) auto

lemma cast_None_expect: "cast_TensorType t = None \<Longrightarrow> expect_TensorType t = Inl ExpectFailed"
  by (cases t) auto

lemma withDevice_same: "device tt = dev \<Longrightarrow> withDevice tt dev = tt"
  by (simp add: withDevice_def)

lemma setDeviceType_tensor:
  "s v = Tensor tt \<Longrightarrow>
   setDeviceType v dev s = Inr (device tt \<noteq> dev, s(v := Tensor (withDevice tt dev)))"
proof (cases "device tt = dev")
  case True
  assume st: "s v = Tensor tt"
  have "s(v := Tensor tt) = s" using st by (metis fun_upd_triv)
  then show ?thesis using True st by (simp add: setDeviceType_def withDevice_same)
next
  case False
  assume "s v = Tensor tt"
  then show ?thesis using False by (simp add: setDeviceType_def)
qed

lemma setDeviceType_not_tensor:
  "cast_TensorType (s v) = None \<Longrightarrow> setDeviceType v dev s = Inl ExpectFailed"
  by (simp add: setDeviceType_def cast_None_expect)

lemma setDeviceType_keeps_tensors:
  "setDeviceType v dev s = Inr (c, s') \<Longrightarrow>
   (cast_TensorType (s' w) = None) = (cast_TensorType (s w) = None)"
  by (cases "s v") (auto simp: setDeviceType_def Let_def split: if_splits)

lemma outputs_differ_iff:
  "outputs_differ outs dev s \<longleftrightarrow>
     (\<exists>v\<in>set outs. \<exists>tt. s v = Tensor tt \<and> device tt \<noteq> dev)"
  by (auto simp: outputs_differ_def list_ex_iff cast_Some_iff split: option.splits)

lemma set_outputs_no_tensor:
  "\<not> list_ex (\<lambda>v. cast_TensorType (s v) \<noteq> None) outs \<Longrightarrow> set_outputs outs dev s = s"
  by (auto simp: set_outputs_def with_device_def list_ex_iff fun_eq_iff)

lemma outputs_differ_no_tensor:
  "\<not> list_ex (\<lambda>v. cast_TensorType (s v) \<noteq> None) outs \<Longrightarrow> \<not> outputs_differ outs dev s"
  by (auto simp: outputs_differ_def list_ex_iff)

lemma setReturnsToDevice_loop_closed:
  "setReturnsToDevice_loop outs dev c s =
     Inr (c \<or> outputs_differ outs dev s, set_outputs outs dev s)"
proof (induction outs arbitrary: c s)
  case Nil
  show ?case by (simp add: outputs_differ_def set_outputs_def)
next
  case (Cons out outs)
  show ?case
  proof (cases "cast_TensorType (s out)")
    case None
    then show ?thesis
      by (auto simp: Cons.IH outputs_differ_def set_outputs_def with_device_def)
  next
    case (Some tt)
    then have st: "s out = Tensor tt" by (simp add: cast_Some_iff)
    let ?s' = "s(out := Tensor (withDevice tt dev))"
    have d: "outputs_differ outs dev ?s' \<or> device tt \<noteq> dev \<longleftrightarrow> outputs_differ (out # outs) dev s"
      using st by (auto simp: outputs_differ_def list_ex_iff withDevice_def split: option.splits)
    have e: "set_outputs outs dev ?s' = set_outputs (out # outs) dev s"
      using st by (auto simp: set_outputs_def with_device_def withDevice_def fun_eq_iff split: option.splits)
    have "setReturnsToDevice_loop (out # outs) dev c s =
            setReturnsToDevice_loop outs dev (c \<or> device tt \<noteq> dev) ?s'"
      using st by (simp add: setDeviceType_tensor)
    also have "\<dots> = Inr ((c \<or> device tt \<noteq> dev) \<or> outputs_differ outs dev ?s', set_outputs outs dev ?s')"
      by (rule Cons.IH)
    also have "\<dots> = Inr (c \<or> outputs_differ (out # outs) dev s, set_outputs (out # outs) dev s)"
      unfolding e using d by blast
    finally show ?thesis .
  qed
qed

lemma setReturnsToDevice_closed:
  "setReturnsToDevice n dev s =
     Inr (outputs_differ (outputs n) dev s, set_outputs (outputs n) dev s)"
  by (simp add: setReturnsToDevice_def setReturnsToDevice_loop_closed)

subsection \<open>The device argument of an operator\<close>

lemma defaultDeviceProp_loop_skip:
  "i \<le> length args \<Longrightarrow>
   (\<forall>j<i. isSubtypeOf DeviceObjType (arg_type (args ! j)) \<longrightarrow>
       k + j < length (inputs n) \<and> toIValue (inputs n ! (k + j)) = Some IVNone) \<Longrightarrow>
   defaultDeviceProp_loop toIValue n args k s =
     defaultDeviceProp_loop toIValue n (drop i args) (k + i) s"
proof (induction args arbitrary: i k)
  case Nil
  then show ?case by simp
next
  case (Cons a args)
  show ?case
  proof (cases i)
    case 0
    then show ?thesis by simp
  next
    case (Suc i')
    have head: "isSubtypeOf DeviceObjType (arg_type a) \<longrightarrow>
        k < length (inputs n) \<and> toIValue (inputs n ! k) = Some IVNone"
      using Cons.prems(2) Suc by force
    have step: "defaultDeviceProp_loop toIValue n (a # args) k s =
        defaultDeviceProp_loop toIValue n args (Suc k) s"
      using head by auto
    have rest: "\<forall>j<i'. isSubtypeOf DeviceObjType (arg_type (args ! j)) \<longrightarrow>
        Suc k + j < length (inputs n) \<and> toIValue (inputs n ! (Suc k + j)) = Some IVNone"
    proof (intro allI impI)
      fix j assume "j < i'" and p: "isSubtypeOf DeviceObjType (arg_type (args ! j))"
      then have "Suc j < i" using Suc by simp
      moreover have "isSubtypeOf DeviceObjType (arg_type ((a # args) ! Suc j))" using p by simp
      ultimately have "k + Suc j < length (inputs n) \<and> toIValue (inputs n ! (k + Suc j)) = Some IVNone"
        using Cons.prems(2) by blast
      then show "Suc k + j < length (inputs n) \<and> toIValue (inputs n ! (Suc k + j)) = Some IVNone"
        by simp
    qed
    have "i' \<le> length args" using Cons.prems(1) Suc by simp
    from Cons.IH [OF this rest] show ?thesis using step Suc by simp
  qed
qed

lemma defaultDeviceProp_selected:
  assumes sch: "maybeSchema n = Some schema"
    and i: "i < length (arguments schema)" "i < length (inputs n)"
    and sel: "isSubtypeOf DeviceObjType (arg_type (arguments schema ! i))"
    and before: "\<forall>j<i. isSubtypeOf DeviceObjType (arg_type (arguments schema ! j)) \<longrightarrow>
                   toIValue (inputs n ! j) = Some IVNone"
  shows "defaultDeviceProp toIValue n s =
     (case toIValue (inputs n ! i) of
        None \<Rightarrow> Inr (False, s)
      | Some IVNone \<Rightarrow>
          defaultDeviceProp_loop toIValue n (drop (Suc i) (arguments schema)) (Suc i) s
      | Some (IVDevice d) \<Rightarrow> setReturnsToDevice n (Some d) s
      | Some _ \<Rightarrow> Inr (False, s))"
proof -
  have b: "\<forall>j<i. isSubtypeOf DeviceObjType (arg_type (arguments schema ! j)) \<longrightarrow>
       0 + j < length (inputs n) \<and> toIValue (inputs n ! (0 + j)) = Some IVNone"
    using before i(2) by auto
  have "defaultDeviceProp toIValue n s =
      defaultDeviceProp_loop toIValue n (drop i (arguments schema)) (0 + i) s"
    unfolding defaultDeviceProp_def sch option.case
    by (rule defaultDeviceProp_loop_skip [OF _ b]) (use i in simp)
  also have "drop i (arguments schema) = arguments schema ! i # drop (Suc i) (arguments schema)"
    using i(1) by (simp add: Cons_nth_drop_Suc)
  finally show ?thesis
    using sel i(2) by (simp split: option.splits IValue.splits)
qed

lemma defaultDeviceProp_loop_cong:
  "(\<forall>j<length args. isSubtypeOf DeviceObjType (arg_type (args ! j)) \<and>
        k + j < length (inputs n) \<longrightarrow>
        toIValue' (inputs n ! (k + j)) = toIValue (inputs n ! (k + j))) \<Longrightarrow>
   defaultDeviceProp_loop toIValue' n args k s = defaultDeviceProp_loop toIValue n args k s"
proof (induction args arbitrary: k)
  case Nil
  show ?case by simp
next
  case (Cons a args)
  have head: "isSubtypeOf DeviceObjType (arg_type a) \<and> k < length (inputs n) \<longrightarrow>
      toIValue' (inputs n ! k) = toIValue (inputs n ! k)"
    using Cons.prems [rule_format, of 0] by simp
  have "\<forall>j<length args. isSubtypeOf DeviceObjType (arg_type (args ! j)) \<and>
        Suc k + j < length (inputs n) \<longrightarrow>
        toIValue' (inputs n ! (Suc k + j)) = toIValue (inputs n ! (Suc k + j))"
  proof (intro allI impI)
    fix j
    assume "j < length args"
      and "isSubtypeOf DeviceObjType (arg_type (args ! j)) \<and> Suc k + j < length (inputs n)"
    then show "toIValue' (inputs n ! (Suc k + j)) = toIValue (inputs n ! (Suc k + j))"
      using Cons.prems [rule_format, of "Suc j"] by simp
  qed
  then have tail: "defaultDeviceProp_loop toIValue' n args (Suc k) s =
      defaultDeviceProp_loop toIValue n args (Suc k) s"
    by (rule Cons.IH)
  show ?case
  proof (cases "isSubtypeOf DeviceObjType (arg_type a) \<and> k < length (inputs n)")
    case True
    then have "toIValue' (inputs n ! k) = toIValue (inputs n ! k)" using head by blast
    then show ?thesis using tail by (simp split: option.splits IValue.splits)
  next
    case False
    then show ?thesis using tail by auto
  qed
qed

lemma processNode_aten:
  "is_aten (kind n) \<Longrightarrow>
   processNode toIValue n (ch, s) =
     (if list_ex (\<lambda>v. cast_TensorType (s v) \<noteq> None) (outputs n)
      then processAtenOps toIValue n (ch, s) else Inr (ch, s))"
  by (cases n; cases "kind n") auto

text \<open>
  C3, as the code has it. The scan of \<^verbatim>\<open>defaultDeviceProp\<close> tests
  \<^verbatim>\<open>DeviceObjType::get()->isSubtypeOf(argument.type())\<close>: it selects the first parameter
  whose declared type has the device type as a subtype (the device type itself, or a
  supertype such as the optional device type), and inspects the input at that position:
  a dynamic value or a constant that is no device aborts, a constant None goes on with
  the parameters that remain, a constant device is written to the outputs. Parameters
  whose declared type does not have the device type as a subtype are passed over:
  the result is the same for every constant lookup that agrees on the inputs of the
  parameters whose type has the device type as a subtype.
\<close>

theorem first_device_supertype_parameter_inspected:
  assumes "maybeSchema n = Some schema"
    and "i < length (arguments schema)" and "i < length (inputs n)"
    and "isSubtypeOf DeviceObjType (arg_type (arguments schema ! i))"
    and "\<forall>j<i. \<not> isSubtypeOf DeviceObjType (arg_type (arguments schema ! j))"
  shows "defaultDeviceProp toIValue n s =
     (case toIValue (inputs n ! i) of
        None \<Rightarrow> Inr (False, s)
      | Some IVNone \<Rightarrow>
          defaultDeviceProp_loop toIValue n (drop (Suc i) (arguments schema)) (Suc i) s
      | Some (IVDevice d) \<Rightarrow> setReturnsToDevice n (Some d) s
      | Some _ \<Rightarrow> Inr (False, s)) \<and>
     (\<forall>toIValue'.
        (\<forall>j<length (arguments schema).
            isSubtypeOf DeviceObjType (arg_type (arguments schema ! j)) \<and>
            j < length (inputs n) \<longrightarrow>
            toIValue' (inputs n ! j) = toIValue (inputs n ! j)) \<longrightarrow>
        defaultDeviceProp toIValue' n s = defaultDeviceProp toIValue n s)"
proof -
  have 1: "defaultDeviceProp toIValue n s =
     (case toIValue (inputs n ! i) of
        None \<Rightarrow> Inr (False, s)
      | Some IVNone \<Rightarrow>
          defaultDeviceProp_loop toIValue n (drop (Suc i) (arguments schema)) (Suc i) s
      | Some (IVDevice d) \<Rightarrow> setReturnsToDevice n (Some d) s
      | Some _ \<Rightarrow> Inr (False, s))"
    by (rule defaultDeviceProp_selected [OF assms(1,2,3,4)]) (use assms(5) in simp)
  have 2: "defaultDeviceProp toIValue' n s = defaultDeviceProp toIValue n s"
    if "\<forall>j<length (arguments schema).
            isSubtypeOf DeviceObjType (arg_type (arguments schema ! j)) \<and>
            j < length (inputs n) \<longrightarrow>
            toIValue' (inputs n ! j) = toIValue (inputs n ! j)" for toIValue'
    unfolding defaultDeviceProp_def assms(1) option.case
    by (rule defaultDeviceProp_loop_cong) (use that in simp)
  show ?thesis using 1 2 by blast
qed

text \<open>
  The theorem at \<^verbatim>\<open>full_like(self, fill_value, device)\<close>, whose device parameter is the
  third and follows an integer constant, and at \<^verbatim>\<open>to(self, device?, dtype?)\<close>.
\<close>

theorem first_device_supertype_parameter_inspected_witness:
  "defaultDeviceProp ((\<lambda>_. None)(2 := Some (IVInt 7), 3 := Some (IVDevice cuda1))) node_full store_to =
     setReturnsToDevice node_full (Some cuda1) store_to \<and>
   defaultDeviceProp ((\<lambda>_. None)(2 := Some (IVDevice cuda1))) node_to store_to =
     setReturnsToDevice node_to (Some cuda1) store_to"
proof -
  let ?ti = "(\<lambda>_. None)(2 := Some (IVInt 7), 3 := Some (IVDevice cuda1))"
  let ?tj = "(\<lambda>_. None)(2 := Some (IVDevice cuda1))"
  have a: "maybeSchema node_full = Some (the (maybeSchema node_full))"
    "2 < length (arguments (the (maybeSchema node_full)))" "2 < length (inputs node_full)"
    "isSubtypeOf DeviceObjType (arg_type (arguments (the (maybeSchema node_full)) ! 2))"
    by simp_all
  have b: "\<forall>j<2. \<not> isSubtypeOf DeviceObjType
      (arg_type (arguments (the (maybeSchema node_full)) ! j))"
    by (simp add: numeral_2_eq_2 less_Suc_eq_0_disj)
  have c: "maybeSchema node_to = Some schema_to"
    "1 < length (arguments schema_to)" "1 < length (inputs node_to)"
    "isSubtypeOf DeviceObjType (arg_type (arguments schema_to ! 1))"
    by simp_all
  have d: "\<forall>j<1. \<not> isSubtypeOf DeviceObjType (arg_type (arguments schema_to ! j))"
    by simp
  show ?thesis
    using first_device_supertype_parameter_inspected
        [where toIValue = ?ti and s = store_to, OF a b]
      first_device_supertype_parameter_inspected
        [where toIValue = ?tj and s = store_to, OF c d]
    by simp
qed

text \<open>
  C3 as stated fails: the optional device type is not a subtype of the device type, yet
  the parameter \<^verbatim>\<open>Device? device\<close> of \<^verbatim>\<open>to\<close> is selected. With the constant
  \<^verbatim>\<open>cuda:0\<close> bound to it the output gets \<^verbatim>\<open>cuda:0\<close>; had the parameter been passed
  over, the operand's device (the CPU) would have been written.
\<close>

theorem optional_device_parameter_selected_counterexample:
  "\<not> isSubtypeOf (OptionalType DeviceObjType) DeviceObjType \<and>
   defaultDeviceProp ((\<lambda>_. None)(2 := Some (IVDevice cuda0))) node_to store_to =
     Inr (True, store_to(0 := tensor_on (Some cuda0) None)) \<and>
   propWithNoDevice node_to store_to = Inr (True, store_to(0 := tensor_on (Some cpu) None))"
  by (simp add: defaultDeviceProp_def propWithNoDevice_def setReturnsToDevice_def
      setDeviceType_def withDevice_def is_cpu_zerodim_def is_cpu_def)

text \<open>
  C8. The selected device parameter of a built-in operator node is the first
  parameter whose type has the device type as a subtype and whose input is not the
  constant None. When its input is not a constant, or is a constant that is neither
  None nor a device, the rule returns false with the store as it was, and so does the
  node: nothing is written and no change is reported.
\<close>

theorem ambiguous_device_argument_aborts:
  assumes "is_aten (kind n)" and "maybeOperator n"
    and "maybeSchema n = Some schema"
    and "i < length (arguments schema)" and "i < length (inputs n)"
    and "isSubtypeOf DeviceObjType (arg_type (arguments schema ! i))"
    and "\<forall>j<i. isSubtypeOf DeviceObjType (arg_type (arguments schema ! j)) \<longrightarrow>
                   toIValue (inputs n ! j) = Some IVNone"
    and "toIValue (inputs n ! i) = None \<or>
         (\<exists>v. toIValue (inputs n ! i) = Some v \<and> \<not> isNone v \<and> \<not> isDevice v)"
  shows "defaultDeviceProp toIValue n s = Inr (False, s) \<and>
         processNode toIValue n (ch, s) = Inr (ch, s)"
proof -
  have d: "defaultDeviceProp toIValue n s = Inr (False, s)"
    using assms(8) unfolding defaultDeviceProp_selected [OF assms(3-7)]
    by (auto split: IValue.splits)
  show ?thesis
    using d assms(1,2) by (simp add: processNode_aten processAtenOps_def)
qed

text \<open>
  The theorem at \<^verbatim>\<open>to(self, device?, dtype?)\<close>, once with a dynamic device input and
  once with the string constant \<^verbatim>\<open>"cuda"\<close>.
\<close>

theorem ambiguous_device_argument_aborts_witness:
  "processNode (\<lambda>_. None) node_to (False, store_to) = Inr (False, store_to) \<and>
   processNode ((\<lambda>_. None)(2 := Some (IVString ''cuda''))) node_to (False, store_to) =
     Inr (False, store_to)"
proof -
  have a: "is_aten (kind node_to)" "maybeOperator node_to" "maybeSchema node_to = Some schema_to"
    "1 < length (arguments schema_to)" "1 < length (inputs node_to)"
    "isSubtypeOf DeviceObjType (arg_type (arguments schema_to ! 1))"
    by simp_all
  have b: "\<forall>j<1. isSubtypeOf DeviceObjType (arg_type (arguments schema_to ! j)) \<longrightarrow>
      toIValue (inputs node_to ! j) = Some IVNone" for toIValue :: "Value \<Rightarrow> IValue option"
    by simp
  have 1: "(\<lambda>_. None) (inputs node_to ! 1) = None \<or>
      (\<exists>v. (\<lambda>_. None) (inputs node_to ! 1) = Some v \<and> \<not> isNone v \<and> \<not> isDevice v)"
    by simp
  have 2: "((\<lambda>_. None)(2 := Some (IVString ''cuda''))) (inputs node_to ! 1) = None \<or>
      (\<exists>v. ((\<lambda>_. None)(2 := Some (IVString ''cuda''))) (inputs node_to ! 1) = Some v \<and>
           \<not> isNone v \<and> \<not> isDevice v)"
    by simp
  show ?thesis
    using ambiguous_device_argument_aborts
        [where toIValue = "\<lambda>_. None" and s = store_to and ch = False, OF a b 1]
      ambiguous_device_argument_aborts
        [where toIValue = "(\<lambda>_. None)(2 := Some (IVString ''cuda''))" and s = store_to
           and ch = False, OF a b 2]
    by simp
qed

text \<open>
  C7, as the code has it. A built-in operator node whose selected device parameter
  (the first one whose input is not the constant None) is bound to the constant device
  \<open>e\<close>: every tensor-typed output gets \<open>e\<close> and nothing else of its type changes,
  every other value keeps its type, and the change reported is whether some tensor
  output carried another device. The operands are not read at all.
\<close>

theorem device_argument_overrides_operands:
  assumes "is_aten (kind n)" and "maybeOperator n"
    and "maybeSchema n = Some schema"
    and "i < length (arguments schema)" and "i < length (inputs n)"
    and "isSubtypeOf DeviceObjType (arg_type (arguments schema ! i))"
    and "\<forall>j<i. isSubtypeOf DeviceObjType (arg_type (arguments schema ! j)) \<longrightarrow>
                   toIValue (inputs n ! j) = Some IVNone"
    and "toIValue (inputs n ! i) = Some (IVDevice e)"
  shows "\<exists>c s'. defaultDeviceProp toIValue n s = Inr (c, s') \<and>
           processNode toIValue n (ch, s) = Inr (ch \<or> c, s') \<and>
           (\<forall>v\<in>set (outputs n). \<forall>tt. s v = Tensor tt \<longrightarrow>
               s' v = Tensor (withDevice tt (Some e))) \<and>
           (\<forall>v. v \<notin> set (outputs n) \<or> cast_TensorType (s v) = None \<longrightarrow> s' v = s v) \<and>
           (c \<longleftrightarrow> (\<exists>v\<in>set (outputs n). \<exists>tt. s v = Tensor tt \<and> device tt \<noteq> Some e))"
proof -
  let ?c = "outputs_differ (outputs n) (Some e) s"
  let ?s' = "set_outputs (outputs n) (Some e) s"
  have d: "defaultDeviceProp toIValue n s = Inr (?c, ?s')"
    unfolding defaultDeviceProp_selected [OF assms(3-7)]
    by (simp add: assms(8) setReturnsToDevice_closed)
  have p: "processNode toIValue n (ch, s) = Inr (ch \<or> ?c, ?s')"
    using d assms(1,2)
    by (simp add: processNode_aten processAtenOps_def set_outputs_no_tensor
        outputs_differ_no_tensor)
  have w: "\<forall>v\<in>set (outputs n). \<forall>tt. s v = Tensor tt \<longrightarrow> ?s' v = Tensor (withDevice tt (Some e))"
    by (simp add: set_outputs_def with_device_def)
  have f: "\<forall>v. v \<notin> set (outputs n) \<or> cast_TensorType (s v) = None \<longrightarrow> ?s' v = s v"
    by (auto simp: set_outputs_def with_device_def)
  have c: "?c \<longleftrightarrow> (\<exists>v\<in>set (outputs n). \<exists>tt. s v = Tensor tt \<and> device tt \<noteq> Some e)"
    by (auto simp: outputs_differ_def list_ex_iff cast_Some_iff split: option.splits)
  show ?thesis using d p w f c by blast
qed

text \<open>
  The theorem at \<^verbatim>\<open>to(self, device = cuda:0, dtype)\<close> whose tensor operand is on the CPU.
\<close>

theorem device_argument_overrides_operands_witness:
  "processNode ((\<lambda>_. None)(2 := Some (IVDevice cuda0))) node_to (False, store_to) =
     Inr (True, store_to(0 := tensor_on (Some cuda0) None))"
proof -
  let ?ti = "(\<lambda>_. None)(2 := Some (IVDevice cuda0))"
  have a: "is_aten (kind node_to)" "maybeOperator node_to" "maybeSchema node_to = Some schema_to"
    "1 < length (arguments schema_to)" "1 < length (inputs node_to)"
    "isSubtypeOf DeviceObjType (arg_type (arguments schema_to ! 1))"
    by simp_all
  have b: "\<forall>j<1. isSubtypeOf DeviceObjType (arg_type (arguments schema_to ! j)) \<longrightarrow>
      ?ti (inputs node_to ! j) = Some IVNone"
    by simp
  have e: "?ti (inputs node_to ! 1) = Some (IVDevice cuda0)"
    by simp
  from device_argument_overrides_operands
    [where toIValue = ?ti and s = store_to and ch = False, OF a b e]
  obtain c s' where p: "processNode ?ti node_to (False, store_to) = Inr (False \<or> c, s')"
    and w: "\<forall>v\<in>set (outputs node_to). \<forall>tt. store_to v = Tensor tt \<longrightarrow>
               s' v = Tensor (withDevice tt (Some cuda0))"
    and f: "\<forall>v. v \<notin> set (outputs node_to) \<or> cast_TensorType (store_to v) = None \<longrightarrow>
               s' v = store_to v"
    and c: "c \<longleftrightarrow> (\<exists>v\<in>set (outputs node_to). \<exists>tt. store_to v = Tensor tt \<and>
               device tt \<noteq> Some cuda0)"
    by blast
  have "s' v = (store_to(0 := tensor_on (Some cuda0) None)) v" for v
  proof (cases "v = 0")
    case True
    then show ?thesis using w by (simp add: withDevice_def)
  next
    case False
    then show ?thesis using f by simp
  qed
  then have "s' = store_to(0 := tensor_on (Some cuda0) None)" by (rule ext)
  moreover have c by (simp add: c)
  ultimately show ?thesis using p by simp
qed

text \<open>
  C7 as stated fails when the schema has a device parameter bound to a device but an
  earlier device parameter is selected first: here the parameter at position 2 is
  bound to \<^verbatim>\<open>cuda:0\<close>, the parameter at position 1 has a dynamic input, and the node
  is left as it was.
\<close>

theorem later_device_argument_ignored_counterexample:
  "isSubtypeOf DeviceObjType (arg_type (arguments (the (maybeSchema node_two_devices)) ! 2)) \<and>
   ((\<lambda>_. None)(3 := Some (IVDevice cuda0))) (inputs node_two_devices ! 2) = Some (IVDevice cuda0) \<and>
   processNode ((\<lambda>_. None)(3 := Some (IVDevice cuda0))) node_two_devices (False, store_to) =
     Inr (False, store_to)"
  by (simp add: processAtenOps_def defaultDeviceProp_def)

subsection \<open>Skipped node kinds\<close>

text \<open>
  C9. A loop node, a call node (by name or by reference), a constant node, a
  list-construction node and a list-destructuring node leave the whole state as it
  was, the device annotations of their outputs included, whatever their operands are.
\<close>

theorem skip_classes_untouched:
  "kind n \<in> {prim_Loop, prim_CallMethod, prim_CallFunction, prim_Constant,
             prim_ListConstruct, prim_ListUnpack} \<Longrightarrow>
   processNode toIValue n st = Inr st"
  by (cases n) auto

text \<open>
  The theorem at a loop, a call and a list-destructuring node with an operand on the CPU.
\<close>

theorem skip_classes_untouched_witness:
  "processNode (\<lambda>_. None) (Node prim_Loop [1] [0] [] None False) (False, store_to) =
     Inr (False, store_to) \<and>
   processNode (\<lambda>_. None) (Node prim_CallFunction [1] [0] [] None False) (False, store_to) =
     Inr (False, store_to) \<and>
   processNode (\<lambda>_. None) (Node prim_ListUnpack [1] [0] [] None False) (False, store_to) =
     Inr (False, store_to)"
  by (intro conjI; rule skip_classes_untouched) simp_all

subsection \<open>Resolving the device from the operands\<close>

lemma propWithNoDevice_loop_filter:
  "propWithNoDevice_loop n (filter (\<lambda>v. cast_TensorType (s v) \<noteq> None) inps) dev seen only s =
   propWithNoDevice_loop n inps dev seen only s"
  by (induction inps arbitrary: dev seen only) (auto split: option.splits)

lemma is_cpu_zerodim_cpu:
  "is_cpu_zerodim tt \<Longrightarrow> \<exists>d. device tt = Some d \<and> is_cpu d"
  by (auto simp: is_cpu_zerodim_def split: option.splits)

lemma propWithNoDevice_loop_conflict:
  assumes "a \<in> set inps" and "s a = Tensor ta" and "device ta = Some d" and "\<not> is_cpu d"
    and "dev \<noteq> Some d"
  shows "propWithNoDevice_loop n inps dev True False s = setReturnsToDevice n None s"
  using assms(1)
proof (induction inps)
  case Nil
  then show ?case by simp
next
  case (Cons x inps)
  show ?case
  proof (cases "cast_TensorType (s x)")
    case None
    then have "x \<noteq> a" using assms(2) by auto
    then show ?thesis using Cons None by simp
  next
    case (Some tx)
    show ?thesis
    proof (cases "dev \<noteq> device tx \<and> \<not> is_cpu_zerodim tx")
      case True
      then show ?thesis using Some by simp
    next
      case False
      have "x \<noteq> a"
      proof
        assume "x = a"
        then have "tx = ta" using Some assms(2) by simp
        then show False using False assms(3,4,5) is_cpu_zerodim_cpu [of ta] by auto
      qed
      then show ?thesis using Cons Some False by auto
    qed
  qed
qed

lemma propWithNoDevice_loop_two_devices:
  assumes "s a = Tensor ta" and "device ta = Some d1" and "\<not> is_cpu d1"
    and "b \<in> set ys" and "s b = Tensor tb" and "device tb = Some d2" and "\<not> is_cpu d2"
    and "d1 \<noteq> d2"
    and "only \<longrightarrow> seen \<and> (\<exists>d. dev = Some d \<and> is_cpu d)"
  shows "propWithNoDevice_loop n (xs @ a # ys) dev seen only s = setReturnsToDevice n None s"
  using assms(9)
proof (induction xs arbitrary: dev seen only)
  case Nil
  have nz: "\<not> is_cpu_zerodim ta" using assms(2,3) is_cpu_zerodim_cpu [of ta] by auto
  have after: "propWithNoDevice_loop n ys (Some d1) True False s = setReturnsToDevice n None s"
    by (rule propWithNoDevice_loop_conflict [where s = s and a = b, OF assms(4,5,6,7)])
      (use assms(8) in simp)
  show ?case
  proof (cases seen)
    case False
    then show ?thesis using assms(1,2) nz after by simp
  next
    case True
    show ?thesis
    proof (cases "dev = Some d1")
      case eq: True
      then have "\<not> only" using Nil assms(3) by auto
      then show ?thesis using True eq assms(1,2) after by simp
    next
      case False
      then show ?thesis using True assms(1,2) nz after by simp
    qed
  qed
next
  case (Cons x xs)
  show ?case
  proof (cases "cast_TensorType (s x)")
    case None
    then show ?thesis using Cons by simp
  next
    case (Some tx)
    show ?thesis
    proof (cases seen)
      case False
      have "propWithNoDevice_loop n (xs @ a # ys) (device tx) True (is_cpu_zerodim tx) s =
          setReturnsToDevice n None s"
        by (rule Cons.IH) (use is_cpu_zerodim_cpu [of tx] in auto)
      then show ?thesis using Some False by simp
    next
      case True
      have 1: "propWithNoDevice_loop n (xs @ a # ys) (device tx) seen False s =
          setReturnsToDevice n None s"
        by (rule Cons.IH) simp
      have 2: "propWithNoDevice_loop n (xs @ a # ys) dev seen only s =
          setReturnsToDevice n None s"
        by (rule Cons.IH) (rule Cons.prems)
      show ?thesis using Some True 1 2 by simp
    qed
  qed
qed

text \<open>
  C6. A node with two tensor operands on two distinct, known devices, neither of
  them the CPU: operand resolution writes the unknown device to every tensor-typed
  output, whatever it carried before, touches nothing else, and reports a change
  exactly when some tensor output carried a device. The node may have more operands.
\<close>

theorem conflicting_operands_write_unknown:
  assumes "a \<in> set (inputs n)" and "s a = Tensor ta" and "device ta = Some d1" and "\<not> is_cpu d1"
    and "b \<in> set (inputs n)" and "s b = Tensor tb" and "device tb = Some d2" and "\<not> is_cpu d2"
    and "d1 \<noteq> d2"
  shows "\<exists>c s'. propWithNoDevice n s = Inr (c, s') \<and>
           (\<forall>v\<in>set (outputs n). \<forall>tt. s v = Tensor tt \<longrightarrow>
               s' v = Tensor (withDevice tt None)) \<and>
           (\<forall>v. v \<notin> set (outputs n) \<or> cast_TensorType (s v) = None \<longrightarrow> s' v = s v) \<and>
           (c \<longleftrightarrow> (\<exists>v\<in>set (outputs n). \<exists>tt. s v = Tensor tt \<and> device tt \<noteq> None))"
proof -
  have ab: "a \<noteq> b" using assms(2,3,6,7,9) by auto
  obtain xs ys where split: "inputs n = xs @ a # ys"
    using assms(1) by (auto simp: in_set_conv_decomp)
  have bail: "propWithNoDevice n s = setReturnsToDevice n None s"
  proof (cases "b \<in> set ys")
    case True
    show ?thesis unfolding propWithNoDevice_def split
      by (rule propWithNoDevice_loop_two_devices
            [where s = s and a = a and b = b, OF assms(2,3,4) True assms(6,7,8,9)]) simp
  next
    case False
    then have "b \<in> set xs" using assms(5) ab split by auto
    then obtain xs1 xs2 where xs: "xs = xs1 @ b # xs2"
      by (auto simp: in_set_conv_decomp)
    have a_in: "a \<in> set (xs2 @ a # ys)" by simp
    have "propWithNoDevice_loop n (xs1 @ b # (xs2 @ a # ys)) None False False s =
        setReturnsToDevice n None s"
      by (rule propWithNoDevice_loop_two_devices
            [where s = s and a = b and b = a, OF assms(6,7,8) a_in assms(2,3,4)])
        (use assms(9) in auto)
    then show ?thesis by (simp add: propWithNoDevice_def split xs)
  qed
  let ?c = "outputs_differ (outputs n) None s"
  let ?s' = "set_outputs (outputs n) None s"
  have d: "propWithNoDevice n s = Inr (?c, ?s')"
    by (simp add: bail setReturnsToDevice_closed)
  have w: "\<forall>v\<in>set (outputs n). \<forall>tt. s v = Tensor tt \<longrightarrow> ?s' v = Tensor (withDevice tt None)"
    by (simp add: set_outputs_def with_device_def)
  have f: "\<forall>v. v \<notin> set (outputs n) \<or> cast_TensorType (s v) = None \<longrightarrow> ?s' v = s v"
    by (auto simp: set_outputs_def with_device_def)
  have c: "?c \<longleftrightarrow> (\<exists>v\<in>set (outputs n). \<exists>tt. s v = Tensor tt \<and> device tt \<noteq> None)"
    by (rule outputs_differ_iff)
  show ?thesis using d w f c by blast
qed

text \<open>
  The theorem at \<^verbatim>\<open>add\<close> with operands on \<^verbatim>\<open>cuda:0\<close> and \<^verbatim>\<open>cuda:1\<close> and an output
  annotated \<^verbatim>\<open>cuda:0\<close>: the annotation is overwritten.
\<close>

theorem conflicting_operands_write_unknown_witness:
  "propWithNoDevice node_add store_add = Inr (True, store_add(0 := tensor_on None None))"
proof -
  have a: "1 \<in> set (inputs node_add)"
    "store_add 1 = Tensor \<lparr>device = Some cuda0, rank = Some 2, scalar_type = None\<rparr>"
    "device \<lparr>device = Some cuda0, rank = Some 2, scalar_type = None\<rparr> = Some cuda0"
    "\<not> is_cpu cuda0"
    by (simp_all add: is_cpu_def)
  have b: "2 \<in> set (inputs node_add)"
    "store_add 2 = Tensor \<lparr>device = Some cuda1, rank = Some 2, scalar_type = None\<rparr>"
    "device \<lparr>device = Some cuda1, rank = Some 2, scalar_type = None\<rparr> = Some cuda1"
    "\<not> is_cpu cuda1" "cuda0 \<noteq> cuda1"
    by (simp_all add: is_cpu_def)
  from conflicting_operands_write_unknown [where s = store_add, OF a b]
  obtain c s' where p: "propWithNoDevice node_add store_add = Inr (c, s')"
    and w: "\<forall>v\<in>set (outputs node_add). \<forall>tt. store_add v = Tensor tt \<longrightarrow>
               s' v = Tensor (withDevice tt None)"
    and f: "\<forall>v. v \<notin> set (outputs node_add) \<or> cast_TensorType (store_add v) = None \<longrightarrow>
               s' v = store_add v"
    and c: "c \<longleftrightarrow> (\<exists>v\<in>set (outputs node_add). \<exists>tt. store_add v = Tensor tt \<and>
               device tt \<noteq> None)"
    by blast
  have "s' v = (store_add(0 := tensor_on None None)) v" for v
  proof (cases "v = 0")
    case True
    then show ?thesis using w by (simp add: withDevice_def)
  next
    case False
    then show ?thesis using f by simp
  qed
  then have "s' = store_add(0 := tensor_on None None)" by (rule ext)
  moreover have c by (simp add: c)
  ultimately show ?thesis using p by simp
qed

text \<open>
  The scan where it behaves as the comment in the source says. The tensor inputs of
  a node are, in scan order, \<open>A\<close> and \<open>B\<close>, both zero-rank on the CPU, then \<open>C\<close> on
  device \<open>d1\<close>, then \<open>D\<close> on device \<open>d2\<close> with \<open>d1 \<noteq> d2\<close>, neither \<open>C\<close> nor \<open>D\<close>
  zero-rank on the CPU, and \<open>d1\<close> another device than that of \<open>A\<close>. After \<open>A\<close> and \<open>B\<close>
  the candidate is the device of \<open>A\<close> with \<^verbatim>\<open>only_seen_cpu_zerodim\<close> set; \<open>C\<close> makes
  \<open>d1\<close> the candidate and clears the flag; \<open>D\<close> then returns from the loop with the
  unknown device, which is written to every tensor-typed output.
\<close>

lemma zero_rank_scan_promotes_then_conflicts:
  assumes "filter (\<lambda>v. cast_TensorType (s v) \<noteq> None) (inputs n) = [A, B, C, D]"
    and "s A = Tensor tA" and "s B = Tensor tB" and "s C = Tensor tC" and "s D = Tensor tD"
    and "is_cpu_zerodim tA" and "is_cpu_zerodim tB"
    and "device tC = Some d1" and "device tD = Some d2" and "d1 \<noteq> d2"
    and "\<not> is_cpu_zerodim tC" and "Some d1 \<noteq> device tA" and "\<not> is_cpu_zerodim tD"
  shows "propWithNoDevice n s = propWithNoDevice_loop n [C, D] (device tA) True True s \<and>
         propWithNoDevice_loop n [C, D] (device tA) True True s =
           propWithNoDevice_loop n [D] (Some d1) True False s \<and>
         propWithNoDevice_loop n [D] (Some d1) True False s = setReturnsToDevice n None s \<and>
         (\<exists>c s'. propWithNoDevice n s = Inr (c, s') \<and>
            (\<forall>v\<in>set (outputs n). \<forall>tt. s v = Tensor tt \<longrightarrow>
                s' v = Tensor (withDevice tt None)) \<and>
            (\<forall>v. v \<notin> set (outputs n) \<or> cast_TensorType (s v) = None \<longrightarrow> s' v = s v))"
proof -
  have 0: "propWithNoDevice n s = propWithNoDevice_loop n [A, B, C, D] None False False s"
    unfolding propWithNoDevice_def assms(1) [symmetric]
    by (rule propWithNoDevice_loop_filter [symmetric])
  have 1: "propWithNoDevice_loop n [A, B, C, D] None False False s =
      propWithNoDevice_loop n [C, D] (device tA) True True s"
    using assms(2,3,6,7) by simp
  have 2: "propWithNoDevice_loop n [C, D] (device tA) True True s =
      propWithNoDevice_loop n [D] (Some d1) True False s"
    using assms(4,8,11,12) by auto
  have 3: "propWithNoDevice_loop n [D] (Some d1) True False s = setReturnsToDevice n None s"
    using assms(5,9,10,13) by auto
  let ?c = "outputs_differ (outputs n) None s"
  let ?s' = "set_outputs (outputs n) None s"
  have d: "propWithNoDevice n s = Inr (?c, ?s')"
    unfolding 0 1 2 3 by (rule setReturnsToDevice_closed)
  have w: "\<forall>v\<in>set (outputs n). \<forall>tt. s v = Tensor tt \<longrightarrow> ?s' v = Tensor (withDevice tt None)"
    by (simp add: set_outputs_def with_device_def)
  have f: "\<forall>v. v \<notin> set (outputs n) \<or> cast_TensorType (s v) = None \<longrightarrow> ?s' v = s v"
    by (auto simp: set_outputs_def with_device_def)
  show ?thesis using 0 1 2 3 d w f by (metis (no_types, lifting))
qed

text \<open>
  The lemma at an operator with two zero-rank CPU operands, then a \<^verbatim>\<open>cuda:0\<close> and a
  \<^verbatim>\<open>cuda:1\<close> operand of rank 2.
\<close>

lemma zero_rank_scan_promotes_then_conflicts_example:
  "propWithNoDevice node_addcmul
      (store_abcd (tensor_on (Some cuda0) (Some 2)) (tensor_on (Some cuda1) (Some 2))) =
     Inr (True, (store_abcd (tensor_on (Some cuda0) (Some 2)) (tensor_on (Some cuda1) (Some 2)))
                  (0 := tensor_on None None))"
proof -
  let ?s = "store_abcd (tensor_on (Some cuda0) (Some 2)) (tensor_on (Some cuda1) (Some 2))"
  let ?z = "\<lparr>device = Some cpu, rank = Some 0, scalar_type = None\<rparr>"
  let ?c = "\<lparr>device = Some cuda0, rank = Some 2, scalar_type = None\<rparr>"
  let ?d = "\<lparr>device = Some cuda1, rank = Some 2, scalar_type = None\<rparr>"
  have a: "filter (\<lambda>v. cast_TensorType (?s v) \<noteq> None) (inputs node_addcmul) = [1, 2, 3, 4]"
    "?s 1 = Tensor ?z" "?s 2 = Tensor ?z" "?s 3 = Tensor ?c" "?s 4 = Tensor ?d"
    "is_cpu_zerodim ?z" "is_cpu_zerodim ?z"
    "device ?c = Some cuda0" "device ?d = Some cuda1" "cuda0 \<noteq> cuda1"
    "\<not> is_cpu_zerodim ?c" "Some cuda0 \<noteq> device ?z" "\<not> is_cpu_zerodim ?d"
    by (simp_all add: is_cpu_zerodim_def is_cpu_def)
  from zero_rank_scan_promotes_then_conflicts [where s = ?s, OF a]
  have "propWithNoDevice node_addcmul ?s = setReturnsToDevice node_addcmul None ?s"
    by simp
  then show ?thesis
    by (simp add: setReturnsToDevice_def setDeviceType_def withDevice_def)
qed

text \<open>
  C5 does not hold of the code. The claim: with tensor inputs \<open>A\<close> and \<open>B\<close> zero-rank
  on the CPU, then \<open>C\<close> on \<open>d1\<close>, then \<open>D\<close> on \<open>d2 \<noteq> d1\<close>, the operand \<open>C\<close> ends the
  only-zero-rank state and \<open>D\<close> makes every tensor output unknown. When \<open>C\<close> is a
  tensor of rank 2 on the CPU device of \<open>A\<close>, the test \<^verbatim>\<open>device != tensor_type->device()\<close>
  is false at \<open>C\<close>, so \<^verbatim>\<open>only_seen_cpu_zerodim\<close> stays set although a CPU tensor that
  is not zero-rank has been seen: the loop reaches \<open>D\<close> on \<^verbatim>\<open>cuda:0\<close> with the candidate
  CPU and the flag set, \<open>D\<close> replaces the candidate, and the output gets \<^verbatim>\<open>cuda:0\<close>
  instead of unknown. The same four operands with \<open>C\<close> scanned first give unknown.
\<close>

theorem zero_rank_flag_survives_cpu_operand:
  "propWithNoDevice node_addcmul
      (store_abcd (tensor_on (Some cpu) (Some 2)) (tensor_on (Some cuda0) (Some 2))) =
     propWithNoDevice_loop node_addcmul [4] (Some cpu) True True
      (store_abcd (tensor_on (Some cpu) (Some 2)) (tensor_on (Some cuda0) (Some 2))) \<and>
   propWithNoDevice node_addcmul
      (store_abcd (tensor_on (Some cpu) (Some 2)) (tensor_on (Some cuda0) (Some 2))) =
     Inr (True, (store_abcd (tensor_on (Some cpu) (Some 2)) (tensor_on (Some cuda0) (Some 2)))
                  (0 := tensor_on (Some cuda0) None)) \<and>
   propWithNoDevice node_addcmul_reordered
      (store_abcd (tensor_on (Some cpu) (Some 2)) (tensor_on (Some cuda0) (Some 2))) =
     Inr (True, (store_abcd (tensor_on (Some cpu) (Some 2)) (tensor_on (Some cuda0) (Some 2)))
                  (0 := tensor_on None None))"
  by (simp add: is_cpu_zerodim_def is_cpu_def propWithNoDevice_def setReturnsToDevice_def
      setDeviceType_def withDevice_def)

subsection \<open>The join of a conditional\<close>

lemma merge_loop_total:
  assumes "length src1 = length src2" and "length src2 = length dst"
  shows "(if \<forall>i<length dst. cast_TensorType (s (src1 ! i)) \<noteq> None \<and>
               cast_TensorType (s (src2 ! i)) \<noteq> None \<longrightarrow>
               cast_TensorType (s (dst ! i)) \<noteq> None
          then \<exists>c' s'. mergeAndApplyTensorProps_loop src1 src2 dst c s = Inr (c', s')
          else mergeAndApplyTensorProps_loop src1 src2 dst c s = Inl ExpectFailed)"
  using assms
proof (induction src1 src2 dst arbitrary: c s rule: list_induct3)
  case Nil
  show ?case by simp
next
  case (Cons a src1 b src2 d dst)
  let ?P = "\<lambda>s xs ys zs. \<forall>i<length zs. cast_TensorType (s (xs ! i)) \<noteq> None \<and>
               cast_TensorType (s (ys ! i)) \<noteq> None \<longrightarrow>
               cast_TensorType (s (zs ! i)) \<noteq> None"
  have split: "?P s (a # src1) (b # src2) (d # dst) \<longleftrightarrow>
      (cast_TensorType (s a) \<noteq> None \<and> cast_TensorType (s b) \<noteq> None
         \<longrightarrow> cast_TensorType (s d) \<noteq> None) \<and> ?P s src1 src2 dst"
    by (auto simp: less_Suc_eq_0_disj)
  show ?case
  proof (cases "cast_TensorType (s a) \<noteq> None \<and> cast_TensorType (s b) \<noteq> None")
    case False
    then have "mergeAndApplyTensorProps_loop (a # src1) (b # src2) (d # dst) c s =
        mergeAndApplyTensorProps_loop src1 src2 dst c s"
      by (auto split: option.splits)
    then show ?thesis using Cons.IH [where c = c and s = s] False unfolding split by auto
  next
    case True
    then obtain t1 t2 where t: "s a = Tensor t1" "s b = Tensor t2"
      by (auto simp: cast_Some_iff)
    let ?m = "if device t1 = None \<or> device t2 = None \<or> device t1 \<noteq> device t2
              then None else device t1"
    show ?thesis
    proof (cases "cast_TensorType (s d)")
      case None
      then have "mergeAndApplyTensorProps_loop (a # src1) (b # src2) (d # dst) c s =
          Inl ExpectFailed"
        using t by (simp add: setDeviceType_not_tensor)
      then show ?thesis using True None unfolding split by simp
    next
      case (Some tt)
      then have d: "s d = Tensor tt" by (simp add: cast_Some_iff)
      let ?s1 = "s(d := Tensor (withDevice tt ?m))"
      have set: "setDeviceType d ?m s = Inr (device tt \<noteq> ?m, ?s1)"
        using d by (rule setDeviceType_tensor)
      have "mergeAndApplyTensorProps_loop (a # src1) (b # src2) (d # dst) c s =
          (case setDeviceType d ?m s of
             Inl e \<Rightarrow> Inl e
           | Inr (c', s') \<Rightarrow> mergeAndApplyTensorProps_loop src1 src2 dst (c \<or> c') s')"
        by (auto simp: t)
      then have step: "mergeAndApplyTensorProps_loop (a # src1) (b # src2) (d # dst) c s =
          mergeAndApplyTensorProps_loop src1 src2 dst (c \<or> device tt \<noteq> ?m) ?s1"
        unfolding set by simp
      have same: "\<And>w. (cast_TensorType (?s1 w) = None) = (cast_TensorType (s w) = None)"
        using d by auto
      have "?P ?s1 src1 src2 dst \<longleftrightarrow> ?P s src1 src2 dst"
        unfolding same ..
      then show ?thesis
        using Cons.IH [where c = "c \<or> device tt \<noteq> ?m" and s = ?s1] True Some unfolding split step by auto
    qed
  qed
qed

text \<open>
  C10. With the two assertions on the list lengths passed, \<^verbatim>\<open>mergeAndApplyTensorProps\<close>
  returns exactly when, at every position where both branch exit values are
  tensor-typed, the output of the conditional is tensor-typed too; otherwise
  \<^verbatim>\<open>expect<TensorType>\<close> fails in \<^verbatim>\<open>setDeviceType\<close> and the pass aborts. The writes
  of the loop keep every value tensor-typed or not as it was, so the condition is one
  on the store before the merge.
\<close>

theorem merge_total_iff_destination_tensor:
  assumes "length src1 = length src2" and "length src1 = length dst"
  shows "(if \<forall>i<length dst. cast_TensorType (s (src1 ! i)) \<noteq> None \<and>
               cast_TensorType (s (src2 ! i)) \<noteq> None \<longrightarrow>
               cast_TensorType (s (dst ! i)) \<noteq> None
          then \<exists>c s'. mergeAndApplyTensorProps src1 src2 dst s = Inr (c, s')
          else mergeAndApplyTensorProps src1 src2 dst s = Inl ExpectFailed)"
proof -
  have eq: "mergeAndApplyTensorProps src1 src2 dst s =
      mergeAndApplyTensorProps_loop src1 src2 dst False s"
    using assms by (simp add: mergeAndApplyTensorProps_def)
  show ?thesis
    unfolding eq by (rule merge_loop_total) (use assms in simp_all)
qed

text \<open>
  The theorem at one position with tensor-typed exit values, once with a tensor-typed
  and once with an integer-typed output of the conditional.
\<close>

theorem merge_total_iff_destination_tensor_witness:
  "(\<exists>c s'. mergeAndApplyTensorProps [1] [2] [0]
       (store_if (tensor_on None None) (tensor_on (Some cpu) None)
          (tensor_on (Some cuda0) None)) = Inr (c, s')) \<and>
   mergeAndApplyTensorProps [1] [2] [0]
       (store_if IntType (tensor_on (Some cpu) None) (tensor_on (Some cuda0) None)) =
     Inl ExpectFailed"
proof -
  let ?A = "store_if (tensor_on None None) (tensor_on (Some cpu) None)
          (tensor_on (Some cuda0) None)"
  let ?B = "store_if IntType (tensor_on (Some cpu) None) (tensor_on (Some cuda0) None)"
  have l: "length [1::nat] = length [2::nat]" "length [1::nat] = length [0::nat]"
    by simp_all
  have ok: "\<forall>i<length [0::nat]. cast_TensorType (?A ([1] ! i)) \<noteq> None \<and>
               cast_TensorType (?A ([2] ! i)) \<noteq> None \<longrightarrow>
               cast_TensorType (?A ([0] ! i)) \<noteq> None"
    by simp
  have "\<not> (cast_TensorType (?B ([1] ! 0)) \<noteq> None \<and>
               cast_TensorType (?B ([2] ! 0)) \<noteq> None \<longrightarrow>
               cast_TensorType (?B ([0] ! 0)) \<noteq> None)"
    by simp
  then have bad: "\<not> (\<forall>i<length [0::nat]. cast_TensorType (?B ([1] ! i)) \<noteq> None \<and>
               cast_TensorType (?B ([2] ! i)) \<noteq> None \<longrightarrow>
               cast_TensorType (?B ([0] ! i)) \<noteq> None)"
    by (metis length_Cons zero_less_Suc)
  show ?thesis
    using merge_total_iff_destination_tensor [where s = ?A, OF l]
      merge_total_iff_destination_tensor [where s = ?B, OF l]
    unfolding if_P [OF ok] if_not_P [OF bad] by (rule conjI)
qed

lemma merge_loop_closed:
  assumes "length src1 = length src2" and "length src2 = length dst"
    and "distinct dst" and "set dst \<inter> (set src1 \<union> set src2) = {}"
    and "\<forall>i<length dst. cast_TensorType (s (src1 ! i)) \<noteq> None \<and>
               cast_TensorType (s (src2 ! i)) \<noteq> None \<longrightarrow>
               cast_TensorType (s (dst ! i)) \<noteq> None"
  shows "\<exists>c' s'. mergeAndApplyTensorProps_loop src1 src2 dst c s = Inr (c', s') \<and>
           (\<forall>i<length dst. \<forall>t1 t2 tt.
               s (src1 ! i) = Tensor t1 \<and> s (src2 ! i) = Tensor t2 \<and> s (dst ! i) = Tensor tt \<longrightarrow>
               s' (dst ! i) =
                 Tensor (withDevice tt (if device t1 = device t2 then device t1 else None))) \<and>
           (\<forall>i<length dst. cast_TensorType (s (src1 ! i)) = None \<or>
               cast_TensorType (s (src2 ! i)) = None \<longrightarrow> s' (dst ! i) = s (dst ! i)) \<and>
           (\<forall>v. v \<notin> set dst \<longrightarrow> s' v = s v)"
  using assms
proof (induction src1 src2 dst arbitrary: c s rule: list_induct3)
  case Nil
  show ?case by simp
next
  case (Cons a src1 b src2 d dst)
  have fresh: "d \<notin> set dst" "d \<notin> set src1" "d \<notin> set src2" "d \<noteq> a" "d \<noteq> b"
    using Cons.prems by auto
  have dist: "distinct dst" and disj: "set dst \<inter> (set src1 \<union> set src2) = {}"
    using Cons.prems by auto
  have pre0: "cast_TensorType (s a) \<noteq> None \<and> cast_TensorType (s b) \<noteq> None \<longrightarrow>
      cast_TensorType (s d) \<noteq> None"
    using Cons.prems(3) by force
  have pre: "\<forall>i<length dst. cast_TensorType (s (src1 ! i)) \<noteq> None \<and>
               cast_TensorType (s (src2 ! i)) \<noteq> None \<longrightarrow>
               cast_TensorType (s (dst ! i)) \<noteq> None"
  proof (intro allI impI)
    fix i assume "i < length dst"
      and "cast_TensorType (s (src1 ! i)) \<noteq> None \<and> cast_TensorType (s (src2 ! i)) \<noteq> None"
    then show "cast_TensorType (s (dst ! i)) \<noteq> None"
      using Cons.prems(3) [rule_format, of "Suc i"] by simp
  qed
  let ?Q = "\<lambda>s0 s' xs ys zs.
           (\<forall>i<length zs. \<forall>t1 t2 tt.
               s0 (xs ! i) = Tensor t1 \<and> s0 (ys ! i) = Tensor t2 \<and> s0 (zs ! i) = Tensor tt \<longrightarrow>
               s' (zs ! i) =
                 Tensor (withDevice tt (if device t1 = device t2 then device t1 else None))) \<and>
           (\<forall>i<length zs. cast_TensorType (s0 (xs ! i)) = None \<or>
               cast_TensorType (s0 (ys ! i)) = None \<longrightarrow> s' (zs ! i) = s0 (zs ! i)) \<and>
           (\<forall>v. v \<notin> set zs \<longrightarrow> s' v = s0 v)"
  have lift: "?Q s s' (a # src1) (b # src2) (d # dst)"
    if q: "?Q s1 s' src1 src2 dst"
      and same: "\<And>w. w \<noteq> d \<Longrightarrow> s1 w = s w"
      and head: "\<And>t1 t2 tt. s a = Tensor t1 \<Longrightarrow> s b = Tensor t2 \<Longrightarrow> s d = Tensor tt \<Longrightarrow>
          s1 d = Tensor (withDevice tt (if device t1 = device t2 then device t1 else None))"
      and skip: "cast_TensorType (s a) = None \<or> cast_TensorType (s b) = None \<Longrightarrow> s1 d = s d"
    for s1 s'
  proof (intro conjI allI impI)
    fix i t1 t2 tt
    assume i: "i < length (d # dst)"
      and t: "s ((a # src1) ! i) = Tensor t1 \<and> s ((b # src2) ! i) = Tensor t2 \<and>
              s ((d # dst) ! i) = Tensor tt"
    show "s' ((d # dst) ! i) =
        Tensor (withDevice tt (if device t1 = device t2 then device t1 else None))"
    proof (cases i)
      case 0
      then show ?thesis using t q fresh(1) head by simp
    next
      case (Suc j)
      then have j: "j < length dst" using i by simp
      have "src1 ! j \<noteq> d" "src2 ! j \<noteq> d" "dst ! j \<noteq> d"
        using fresh j Cons.hyps by (metis nth_mem)+
      then have e: "s1 (src1 ! j) = s (src1 ! j)" "s1 (src2 ! j) = s (src2 ! j)"
          "s1 (dst ! j) = s (dst ! j)"
        using same by simp_all
      have "s1 (src1 ! j) = Tensor t1 \<and> s1 (src2 ! j) = Tensor t2 \<and> s1 (dst ! j) = Tensor tt"
        using t Suc e by simp
      with q j have "s' (dst ! j) =
          Tensor (withDevice tt (if device t1 = device t2 then device t1 else None))"
        by blast
      then show ?thesis using Suc by simp
    qed
  next
    fix i
    assume i: "i < length (d # dst)"
      and t: "cast_TensorType (s ((a # src1) ! i)) = None \<or>
              cast_TensorType (s ((b # src2) ! i)) = None"
    show "s' ((d # dst) ! i) = s ((d # dst) ! i)"
    proof (cases i)
      case 0
      then show ?thesis using t q fresh(1) skip by simp
    next
      case (Suc j)
      then have j: "j < length dst" using i by simp
      have "src1 ! j \<noteq> d" "src2 ! j \<noteq> d" "dst ! j \<noteq> d"
        using fresh j Cons.hyps by (metis nth_mem)+
      then have e: "s1 (src1 ! j) = s (src1 ! j)" "s1 (src2 ! j) = s (src2 ! j)"
          "s1 (dst ! j) = s (dst ! j)"
        using same by simp_all
      have "cast_TensorType (s1 (src1 ! j)) = None \<or> cast_TensorType (s1 (src2 ! j)) = None"
        using t Suc e by simp
      with q j have "s' (dst ! j) = s1 (dst ! j)"
        by blast
      then show ?thesis using Suc e by simp
    qed
  next
    fix v assume "v \<notin> set (d # dst)"
    then show "s' v = s v" using q same by simp
  qed
  show ?case
  proof (cases "cast_TensorType (s a) \<noteq> None \<and> cast_TensorType (s b) \<noteq> None")
    case False
    then have step: "mergeAndApplyTensorProps_loop (a # src1) (b # src2) (d # dst) c s =
        mergeAndApplyTensorProps_loop src1 src2 dst c s"
      by (auto split: option.splits)
    from Cons.IH [OF dist disj pre, where c = c]
    obtain c' s' where r: "mergeAndApplyTensorProps_loop src1 src2 dst c s = Inr (c', s')"
      and q: "?Q s s' src1 src2 dst" by blast
    have "?Q s s' (a # src1) (b # src2) (d # dst)"
      by (rule lift [OF q]) (use False in \<open>auto simp: cast_Some_iff\<close>)
    then show ?thesis unfolding step using r by blast
  next
    case True
    then obtain t1 t2 where t: "s a = Tensor t1" "s b = Tensor t2"
      by (auto simp: cast_Some_iff)
    obtain tt where d: "s d = Tensor tt"
      using pre0 True by (auto simp: cast_Some_iff)
    let ?m = "if device t1 = None \<or> device t2 = None \<or> device t1 \<noteq> device t2
              then None else device t1"
    have m: "?m = (if device t1 = device t2 then device t1 else None)" by auto
    let ?s1 = "s(d := Tensor (withDevice tt ?m))"
    have set: "setDeviceType d ?m s = Inr (device tt \<noteq> ?m, ?s1)"
      using d by (rule setDeviceType_tensor)
    have "mergeAndApplyTensorProps_loop (a # src1) (b # src2) (d # dst) c s =
        (case setDeviceType d ?m s of
           Inl e \<Rightarrow> Inl e
         | Inr (c', s') \<Rightarrow> mergeAndApplyTensorProps_loop src1 src2 dst (c \<or> c') s')"
      by (auto simp: t)
    then have step: "mergeAndApplyTensorProps_loop (a # src1) (b # src2) (d # dst) c s =
        mergeAndApplyTensorProps_loop src1 src2 dst (c \<or> device tt \<noteq> ?m) ?s1"
      unfolding set by simp
    have pre1: "\<forall>i<length dst. cast_TensorType (?s1 (src1 ! i)) \<noteq> None \<and>
               cast_TensorType (?s1 (src2 ! i)) \<noteq> None \<longrightarrow>
               cast_TensorType (?s1 (dst ! i)) \<noteq> None"
      using pre d by auto
    from Cons.IH [OF dist disj pre1, where c = "c \<or> device tt \<noteq> ?m"]
    obtain c' s' where r: "mergeAndApplyTensorProps_loop src1 src2 dst
          (c \<or> device tt \<noteq> ?m) ?s1 = Inr (c', s')"
      and q: "?Q ?s1 s' src1 src2 dst" by blast
    have "?Q s s' (a # src1) (b # src2) (d # dst)"
    proof (rule lift [OF q])
      fix w assume "w \<noteq> d" then show "?s1 w = s w" by simp
    next
      fix u1 u2 ut assume "s a = Tensor u1" "s b = Tensor u2" "s d = Tensor ut"
      then have "u1 = t1" "u2 = t2" "ut = tt" using t d by simp_all
      then show "?s1 d = Tensor (withDevice ut (if device u1 = device u2 then device u1 else None))"
        using m by simp
    next
      assume "cast_TensorType (s a) = None \<or> cast_TensorType (s b) = None"
      then show "?s1 d = s d" using True by simp
    qed
    then show ?thesis unfolding step using r by blast
  qed
qed

text \<open>
  C2, as the code has it. Where the outputs of the conditional are distinct values
  apart from the branch exit values, and the merge does not abort: at every
  position where both exit values are tensor-typed the output gets their common
  device when both devices are known and equal, and the unknown device otherwise;
  at every other position the output is left as it was, and so is every value that
  is not an output. The merge reads only the two devices: the rank of an exit
  value plays no part, so no zero-rank exception applies at the join.
\<close>

theorem join_writes_plain_merge:
  assumes "length src1 = length src2" and "length src1 = length dst"
    and "distinct dst" and "set dst \<inter> (set src1 \<union> set src2) = {}"
    and "\<forall>i<length dst. cast_TensorType (s (src1 ! i)) \<noteq> None \<and>
               cast_TensorType (s (src2 ! i)) \<noteq> None \<longrightarrow>
               cast_TensorType (s (dst ! i)) \<noteq> None"
  shows "\<exists>c s'. mergeAndApplyTensorProps src1 src2 dst s = Inr (c, s') \<and>
           (\<forall>i<length dst. \<forall>t1 t2 tt.
               s (src1 ! i) = Tensor t1 \<and> s (src2 ! i) = Tensor t2 \<and> s (dst ! i) = Tensor tt \<longrightarrow>
               s' (dst ! i) =
                 Tensor (withDevice tt (if device t1 = device t2 then device t1 else None))) \<and>
           (\<forall>i<length dst. cast_TensorType (s (src1 ! i)) = None \<or>
               cast_TensorType (s (src2 ! i)) = None \<longrightarrow> s' (dst ! i) = s (dst ! i)) \<and>
           (\<forall>v. v \<notin> set dst \<longrightarrow> s' v = s v)"
proof -
  have eq: "mergeAndApplyTensorProps src1 src2 dst s =
      mergeAndApplyTensorProps_loop src1 src2 dst False s"
    using assms(1,2) by (simp add: mergeAndApplyTensorProps_def)
  have len: "length src2 = length dst" using assms(1,2) by simp
  show ?thesis
    unfolding eq by (rule merge_loop_closed [OF assms(1) len assms(3,4,5)])
qed

text \<open>
  The theorem at a conditional with two outputs: both branches agree on \<^verbatim>\<open>cuda:0\<close> for
  the first; for the second one branch returns a zero-rank CPU value and the other a
  \<^verbatim>\<open>cuda:0\<close> value, and the output becomes unknown.
\<close>

theorem join_writes_plain_merge_witness:
  "mergeAndApplyTensorProps [1, 3] [2, 4] [0, 5]
      ((\<lambda>_. NoneType)(0 := tensor_on None None, 1 := tensor_on (Some cuda0) None,
          2 := tensor_on (Some cuda0) None, 3 := tensor_on (Some cpu) (Some 0),
          4 := tensor_on (Some cuda0) (Some 2), 5 := tensor_on (Some cuda0) None)) =
     Inr (True, ((\<lambda>_. NoneType)(0 := tensor_on None None, 1 := tensor_on (Some cuda0) None,
          2 := tensor_on (Some cuda0) None, 3 := tensor_on (Some cpu) (Some 0),
          4 := tensor_on (Some cuda0) (Some 2), 5 := tensor_on (Some cuda0) None))
          (0 := tensor_on (Some cuda0) None, 5 := tensor_on None None))"
proof -
  let ?s = "(\<lambda>_. NoneType)(0 := tensor_on None None, 1 := tensor_on (Some cuda0) None,
          2 := tensor_on (Some cuda0) None, 3 := tensor_on (Some cpu) (Some 0),
          4 := tensor_on (Some cuda0) (Some 2), 5 := tensor_on (Some cuda0) None)"
  have a: "length [1::nat, 3] = length [2::nat, 4]" "length [1::nat, 3] = length [0::nat, 5]"
    "distinct [0::nat, 5]" "set [0::nat, 5] \<inter> (set [1, 3] \<union> set [2, 4]) = {}"
    by simp_all
  have b: "\<forall>i<length [0::nat, 5]. cast_TensorType (?s ([1, 3] ! i)) \<noteq> None \<and>
               cast_TensorType (?s ([2, 4] ! i)) \<noteq> None \<longrightarrow>
               cast_TensorType (?s ([0, 5] ! i)) \<noteq> None"
    by (simp add: less_Suc_eq_0_disj)
  from join_writes_plain_merge [where s = ?s, OF a b]
  obtain c s' where "mergeAndApplyTensorProps [1, 3] [2, 4] [0, 5] ?s = Inr (c, s')"
    by blast
  then show ?thesis
    by (simp add: mergeAndApplyTensorProps_def setDeviceType_def withDevice_def)
qed

text \<open>
  C2 as stated fails: the true branch returns a zero-rank CPU value, the false branch
  a \<^verbatim>\<open>cuda:0\<close> value, and the output of the conditional, annotated \<^verbatim>\<open>cuda:0\<close> before,
  becomes unknown instead of keeping the other side's device.
\<close>

theorem join_has_no_zero_rank_exception_counterexample:
  "processNode (\<lambda>_. None) node_if
      (False, store_if (tensor_on (Some cuda0) None) (tensor_on (Some cpu) (Some 0))
                (tensor_on (Some cuda0) (Some 2))) =
     Inr (False, (store_if (tensor_on (Some cuda0) None) (tensor_on (Some cpu) (Some 0))
                (tensor_on (Some cuda0) (Some 2)))(0 := tensor_on None None))"
  by (simp add: mergeAndApplyTensorProps_def setDeviceType_def withDevice_def)

subsection \<open>The result of the pass\<close>

text \<open>
  C1 does not hold of the code: \<^verbatim>\<open>processIf\<close> drops the result of
  \<^verbatim>\<open>mergeAndApplyTensorProps\<close>. On a graph of one conditional whose branches both
  return \<^verbatim>\<open>cuda:0\<close> values, the output of the conditional goes from unknown to
  \<^verbatim>\<open>cuda:0\<close> and the pass returns false.
\<close>

theorem join_change_not_reported:
  "run (\<lambda>_. None) (Graph (Block [node_if] [0]))
      (store_if (tensor_on None None) (tensor_on (Some cuda0) None) (tensor_on (Some cuda0) None)) =
     Inr (False, (store_if (tensor_on None None) (tensor_on (Some cuda0) None)
                (tensor_on (Some cuda0) None))(0 := tensor_on (Some cuda0) None))"
  by (simp add: run_def mergeAndApplyTensorProps_def setDeviceType_def withDevice_def)

subsection \<open>Running the pass twice\<close>

text \<open>
  A node other than a conditional either does nothing or runs the operator rule.
\<close>

lemma processNode_not_If:
  "kind n \<noteq> prim_If \<Longrightarrow>
   processNode toIValue n (c, s) =
     (if is_aten (kind n) \<and> list_ex (\<lambda>v. cast_TensorType (s v) \<noteq> None) (outputs n)
         \<and> maybeOperator n
      then (case defaultDeviceProp toIValue n s of
              Inl e \<Rightarrow> Inl e
            | Inr (c', s') \<Rightarrow> Inr (c \<or> c', s'))
      else Inr (c, s))"
  by (cases n; cases "kind n") (auto simp: processAtenOps_def)

lemma defaultDeviceProp_loop_shapes:
  "(\<exists>e. \<forall>s. defaultDeviceProp_loop toIValue n args i s = Inl e) \<or>
   (\<forall>s. defaultDeviceProp_loop toIValue n args i s = Inr (False, s)) \<or>
   (\<exists>d. \<forall>s. defaultDeviceProp_loop toIValue n args i s = setReturnsToDevice n (Some d) s) \<or>
   (\<forall>s. defaultDeviceProp_loop toIValue n args i s = propWithNoDevice n s)"
proof (induction args arbitrary: i)
  case Nil
  show ?case by simp
next
  case (Cons a args)
  show ?case
  proof (cases "isSubtypeOf DeviceObjType (arg_type a)")
    case False
    then show ?thesis using Cons [of "Suc i"] by simp
  next
    case True
    show ?thesis
    proof (cases "i < length (inputs n)")
      case False
      then show ?thesis using True by auto
    next
      case inb: True
      show ?thesis
      proof (cases "toIValue (inputs n ! i)")
        case None
        then show ?thesis using True inb by simp
      next
        case (Some v)
        then show ?thesis using True inb Cons [of "Suc i"] by (cases v) auto
      qed
    qed
  qed
qed

lemma defaultDeviceProp_shapes:
  "(\<exists>e. \<forall>s. defaultDeviceProp toIValue n s = Inl e) \<or>
   (\<forall>s. defaultDeviceProp toIValue n s = Inr (False, s)) \<or>
   (\<exists>d. \<forall>s. defaultDeviceProp toIValue n s = setReturnsToDevice n (Some d) s) \<or>
   (\<forall>s. defaultDeviceProp toIValue n s = propWithNoDevice n s)"
proof (cases "maybeSchema n")
  case None
  then show ?thesis by (simp add: defaultDeviceProp_def)
next
  case (Some schema)
  show ?thesis
    using defaultDeviceProp_loop_shapes [of toIValue n "arguments schema" 0]
    by (simp add: defaultDeviceProp_def Some)
qed

lemma propWithNoDevice_loop_local:
  "\<forall>v\<in>set inps. t v = s v \<Longrightarrow>
   \<exists>dev. propWithNoDevice_loop n inps d0 seen only s = setReturnsToDevice n dev s \<and>
         propWithNoDevice_loop n inps d0 seen only t = setReturnsToDevice n dev t"
proof (induction inps arbitrary: d0 seen only)
  case Nil
  show ?case by auto
next
  case (Cons x inps)
  have x: "t x = s x" and rest: "\<forall>v\<in>set inps. t v = s v" using Cons.prems by auto
  show ?case
  proof (cases "cast_TensorType (s x)")
    case None
    then show ?thesis using x Cons.IH [OF rest, of d0 seen only] by simp
  next
    case (Some tx)
    show ?thesis
    proof (cases seen)
      case False
      then show ?thesis
        using x Some Cons.IH [OF rest, of "device tx" True "is_cpu_zerodim tx"] by simp
    next
      case True
      show ?thesis
      proof (cases "d0 \<noteq> device tx \<and> \<not> is_cpu_zerodim tx")
        case False
        then show ?thesis using x Some True Cons.IH [OF rest, of d0 seen only] by auto
      next
        case mismatch: True
        show ?thesis
        proof (cases only)
          case True
          then show ?thesis
            using x Some \<open>seen\<close> mismatch Cons.IH [OF rest, of "device tx" seen False] by simp
        next
          case False
          then show ?thesis using x Some \<open>seen\<close> mismatch by auto
        qed
      qed
    qed
  qed
qed

lemma setReturnsToDevice_settled:
  assumes "\<forall>v\<in>set (outputs n). t v = set_outputs (outputs n) dev s v"
  shows "setReturnsToDevice n dev t = Inr (False, t)"
proof -
  have d: "\<not> outputs_differ (outputs n) dev t"
    using assms
    by (auto simp: outputs_differ_iff set_outputs_def with_device_def withDevice_def
        split: option.splits)
  have "set_outputs (outputs n) dev t v = t v" for v
    using assms
    by (auto simp: set_outputs_def with_device_def withDevice_def cast_Some_iff
        split: option.splits)
  then have "set_outputs (outputs n) dev t = t" by (rule ext)
  then show ?thesis using d by (simp add: setReturnsToDevice_closed)
qed

lemma defaultDeviceProp_settled:
  assumes disj: "set (outputs n) \<inter> set (inputs n) = {}"
    and run: "defaultDeviceProp toIValue n s = Inr (c', s')"
  shows "(\<forall>v. v \<notin> set (outputs n) \<longrightarrow> s' v = s v) \<and>
         (\<forall>t. (\<forall>v\<in>set (inputs n) \<union> set (outputs n). t v = s' v) \<longrightarrow>
              defaultDeviceProp toIValue n t = Inr (False, t))"
proof -
  consider (err) e where "\<forall>s. defaultDeviceProp toIValue n s = Inl e"
    | (abort) "\<forall>s. defaultDeviceProp toIValue n s = Inr (False, s)"
    | (dev) d where "\<forall>s. defaultDeviceProp toIValue n s = setReturnsToDevice n (Some d) s"
    | (ops) "\<forall>s. defaultDeviceProp toIValue n s = propWithNoDevice n s"
    using defaultDeviceProp_shapes [of toIValue n] by blast
  then show ?thesis
  proof cases
    case err
    then show ?thesis using run by simp
  next
    case abort
    then show ?thesis using run by simp
  next
    case dev
    then have s': "s' = set_outputs (outputs n) (Some d) s"
      using run by (simp add: setReturnsToDevice_closed)
    have "setReturnsToDevice n (Some d) t = Inr (False, t)"
      if "\<forall>v\<in>set (inputs n) \<union> set (outputs n). t v = s' v" for t
      by (rule setReturnsToDevice_settled [where s = s]) (use that s' in auto)
    then show ?thesis using dev s' by (auto simp: set_outputs_def)
  next
    case ops
    have "defaultDeviceProp toIValue n t = Inr (False, t) \<and> (\<forall>v. v \<notin> set (outputs n) \<longrightarrow> s' v = s v)"
      if t: "\<forall>v\<in>set (inputs n) \<union> set (outputs n). t v = s' v" for t
    proof -
      obtain dv where a: "propWithNoDevice n s = setReturnsToDevice n dv s"
        using propWithNoDevice_loop_local [of "inputs n" s s n None False False]
        by (auto simp: propWithNoDevice_def)
      then have s': "s' = set_outputs (outputs n) dv s"
        using run ops by (simp add: setReturnsToDevice_closed)
      have agree: "\<forall>v\<in>set (inputs n). t v = s v"
        using t s' disj by (auto simp: set_outputs_def)
      obtain dv' where b: "propWithNoDevice n s = setReturnsToDevice n dv' s"
        and c: "propWithNoDevice n t = setReturnsToDevice n dv' t"
        using propWithNoDevice_loop_local [OF agree, of n None False False]
        by (auto simp: propWithNoDevice_def)
      have s'2: "s' = set_outputs (outputs n) dv' s"
        using run ops b by (simp add: setReturnsToDevice_closed)
      have "setReturnsToDevice n dv' t = Inr (False, t)"
        by (rule setReturnsToDevice_settled [where s = s]) (use t s'2 in auto)
      then show ?thesis using ops c s' by (auto simp: set_outputs_def)
    qed
    moreover have "\<forall>v. v \<notin> set (outputs n) \<longrightarrow> s' v = s v"
    proof -
      obtain dv where a: "propWithNoDevice n s = setReturnsToDevice n dv s"
        using propWithNoDevice_loop_local [of "inputs n" s s n None False False]
        by (auto simp: propWithNoDevice_def)
      then have "s' = set_outputs (outputs n) dv s"
        using run ops by (simp add: setReturnsToDevice_closed)
      then show ?thesis by (auto simp: set_outputs_def)
    qed
    ultimately show ?thesis by blast
  qed
qed

lemma merge_loop_frame:
  "mergeAndApplyTensorProps_loop src1 src2 dst c s = Inr (c', s') \<Longrightarrow> v \<notin> set dst \<Longrightarrow>
   s' v = s v"
proof (induction src1 src2 dst c s rule: mergeAndApplyTensorProps_loop.induct)
  case (1 a src1 b src2 d dst changed s)
  show ?case
  proof (cases "cast_TensorType (s a)")
    case None
    then show ?thesis using 1 by simp
  next
    case sa: (Some t1)
    show ?thesis
    proof (cases "cast_TensorType (s b)")
      case None
      then show ?thesis using 1 sa by simp
    next
      case sb: (Some t2)
      let ?m = "if device t1 = None \<or> device t2 = None \<or> device t1 \<noteq> device t2
                then None else device t1"
      have run: "(case setDeviceType d ?m s of
             Inl e \<Rightarrow> Inl e
           | Inr (c1, s1) \<Rightarrow> mergeAndApplyTensorProps_loop src1 src2 dst (changed \<or> c1) s1) =
          Inr (c', s')"
        using "1.prems"(1) sa sb by (auto split: if_splits)
      then obtain c1 s1 where set: "setDeviceType d ?m s = Inr (c1, s1)"
        and rest: "mergeAndApplyTensorProps_loop src1 src2 dst (changed \<or> c1) s1 = Inr (c', s')"
        by (auto split: sum.splits)
      have "s1 v = s v"
        using set "1.prems"(2)
        by (cases "s d") (auto simp: setDeviceType_def Let_def split: if_splits)
      moreover have "s' v = s1 v"
      proof -
        have setif: "(if device t1 = None \<or> device t2 = None \<or> device t1 \<noteq> device t2
            then setDeviceType d None s else setDeviceType d (device t1) s) = Inr (c1, s1)"
          using set by (auto split: if_splits)
        have nv: "v \<notin> set dst" using "1.prems"(2) by simp
        show ?thesis
          by (rule "1.IH"(3) [OF sa sb setif refl rest nv])
      qed
      ultimately show ?thesis by simp
    qed
  qed
qed auto

lemma merge_loop_noop:
  assumes "length src1 = length src2" and "length src2 = length dst"
    and "\<forall>i<length dst. \<forall>t1 t2. t (src1 ! i) = Tensor t1 \<and> t (src2 ! i) = Tensor t2 \<longrightarrow>
           (\<exists>tt. t (dst ! i) = Tensor tt \<and>
                 device tt = (if device t1 = device t2 then device t1 else None))"
  shows "mergeAndApplyTensorProps_loop src1 src2 dst c t = Inr (c, t)"
  using assms
proof (induction src1 src2 dst rule: list_induct3)
  case Nil
  show ?case by simp
next
  case (Cons a src1 b src2 d dst)
  have rest: "\<forall>i<length dst. \<forall>t1 t2. t (src1 ! i) = Tensor t1 \<and> t (src2 ! i) = Tensor t2 \<longrightarrow>
           (\<exists>tt. t (dst ! i) = Tensor tt \<and>
                 device tt = (if device t1 = device t2 then device t1 else None))"
  proof (intro allI impI)
    fix i t1 t2
    assume "i < length dst" and "t (src1 ! i) = Tensor t1 \<and> t (src2 ! i) = Tensor t2"
    then show "\<exists>tt. t (dst ! i) = Tensor tt \<and>
                 device tt = (if device t1 = device t2 then device t1 else None)"
      using Cons.prems [rule_format, of "Suc i" t1 t2] by simp
  qed
  have tail: "mergeAndApplyTensorProps_loop src1 src2 dst c t = Inr (c, t)"
    by (rule Cons.IH [OF rest])
  show ?case
  proof (cases "\<exists>t1 t2. t a = Tensor t1 \<and> t b = Tensor t2")
    case False
    then have "cast_TensorType (t a) = None \<or> cast_TensorType (t b) = None"
      by (cases "t a"; cases "t b") auto
    then show ?thesis using tail by (auto split: option.splits)
  next
    case True
    then obtain t1 t2 where ab: "t a = Tensor t1" "t b = Tensor t2" by blast
    then obtain tt where d: "t d = Tensor tt"
      and m: "device tt = (if device t1 = device t2 then device t1 else None)"
      using Cons.prems [rule_format, of 0 t1 t2] by auto
    let ?m = "if device t1 = None \<or> device t2 = None \<or> device t1 \<noteq> device t2
              then None else device t1"
    have "device tt = ?m" using m by auto
    then have set: "setDeviceType d ?m t = Inr (False, t)"
      using d by (simp add: setDeviceType_def)
    have "mergeAndApplyTensorProps_loop (a # src1) (b # src2) (d # dst) c t =
        (case setDeviceType d ?m t of
           Inl e \<Rightarrow> Inl e
         | Inr (c', s') \<Rightarrow> mergeAndApplyTensorProps_loop src1 src2 dst (c \<or> c') s')"
      by (auto simp: ab)
    then show ?thesis unfolding set using tail by simp
  qed
qed

lemma merge_settled:
  assumes run: "mergeAndApplyTensorProps src1 src2 dst s = Inr (c, s')"
    and dist: "distinct dst" and disj: "set dst \<inter> (set src1 \<union> set src2) = {}"
    and agree: "\<forall>v\<in>set src1 \<union> set src2 \<union> set dst. t v = s' v"
  shows "mergeAndApplyTensorProps src1 src2 dst t = Inr (False, t)"
proof -
  have len: "length src1 = length src2" "length src2 = length dst"
    using run by (auto simp: mergeAndApplyTensorProps_def split: if_splits)
  have loop: "mergeAndApplyTensorProps_loop src1 src2 dst False s = Inr (c, s')"
    using run len by (simp add: mergeAndApplyTensorProps_def)
  have pre: "\<forall>i<length dst. cast_TensorType (s (src1 ! i)) \<noteq> None \<and>
               cast_TensorType (s (src2 ! i)) \<noteq> None \<longrightarrow>
               cast_TensorType (s (dst ! i)) \<noteq> None"
    using merge_loop_total [OF len, of s False] loop by (auto split: if_splits)
  from merge_loop_closed [OF len dist disj pre, of False] loop
  have q: "\<forall>i<length dst. \<forall>t1 t2 tt.
               s (src1 ! i) = Tensor t1 \<and> s (src2 ! i) = Tensor t2 \<and> s (dst ! i) = Tensor tt \<longrightarrow>
               s' (dst ! i) =
                 Tensor (withDevice tt (if device t1 = device t2 then device t1 else None))"
    and fr: "\<forall>v. v \<notin> set dst \<longrightarrow> s' v = s v"
    by auto
  have noop: "\<forall>i<length dst. \<forall>t1 t2. t (src1 ! i) = Tensor t1 \<and> t (src2 ! i) = Tensor t2 \<longrightarrow>
           (\<exists>tt. t (dst ! i) = Tensor tt \<and>
                 device tt = (if device t1 = device t2 then device t1 else None))"
  proof (intro allI impI)
    fix i t1 t2
    assume i: "i < length dst" and ab: "t (src1 ! i) = Tensor t1 \<and> t (src2 ! i) = Tensor t2"
    have in1: "src1 ! i \<in> set src1" and in2: "src2 ! i \<in> set src2" and ind: "dst ! i \<in> set dst"
      using i len by simp_all
    have "src1 ! i \<notin> set dst" "src2 ! i \<notin> set dst" using in1 in2 disj by auto
    then have s1: "s (src1 ! i) = Tensor t1" and s2: "s (src2 ! i) = Tensor t2"
      using ab agree in1 in2 fr by auto
    then obtain tt where sd: "s (dst ! i) = Tensor tt"
      using pre i by (auto simp: cast_Some_iff)
    have "s' (dst ! i) =
        Tensor (withDevice tt (if device t1 = device t2 then device t1 else None))"
      using q i s1 s2 sd by blast
    then have "t (dst ! i) =
        Tensor (withDevice tt (if device t1 = device t2 then device t1 else None))"
      using agree ind by simp
    then show "\<exists>tt. t (dst ! i) = Tensor tt \<and>
                 device tt = (if device t1 = device t2 then device t1 else None)"
      by (simp add: withDevice_def)
  qed
  have "mergeAndApplyTensorProps_loop src1 src2 dst False t = Inr (False, t)"
    by (rule merge_loop_noop [OF len noop])
  then show ?thesis using len by (simp add: mergeAndApplyTensorProps_def)
qed

lemma merge_frame:
  "mergeAndApplyTensorProps src1 src2 dst s = Inr (c, s') \<Longrightarrow> v \<notin> set dst \<Longrightarrow> s' v = s v"
  by (auto simp: mergeAndApplyTensorProps_def split: if_splits dest: merge_loop_frame)

text \<open>
  On a graph in single-assignment form, what a run of a node, a list of nodes or a
  block leaves behind: it has changed defined values only, and on every store that
  agrees with the result on the values used and defined, a run changes nothing and
  reports nothing.
\<close>

lemma block_outputs_used: "set (block_outputs b) \<subseteq> set (uses_block b)"
  by (cases b) simp

lemma settled:
  "ssa_node n \<Longrightarrow> processNode toIValue n st = Inr st' \<Longrightarrow>
     (\<forall>v. v \<notin> set (defs_node n) \<longrightarrow> snd st' v = snd st v) \<and>
     (\<forall>t c. (\<forall>v\<in>set (uses_node n) \<union> set (defs_node n). t v = snd st' v) \<longrightarrow>
        processNode toIValue n (c, t) = Inr (c, t))"
  "ssa_nodes ns \<Longrightarrow> processNodes toIValue ns st = Inr st' \<Longrightarrow>
     (\<forall>v. v \<notin> set (defs_nodes ns) \<longrightarrow> snd st' v = snd st v) \<and>
     (\<forall>t c. (\<forall>v\<in>set (uses_nodes ns) \<union> set (defs_nodes ns). t v = snd st' v) \<longrightarrow>
        processNodes toIValue ns (c, t) = Inr (c, t))"
  "ssa_block b \<Longrightarrow> processBlock toIValue b st = Inr st' \<Longrightarrow>
     (\<forall>v. v \<notin> set (defs_block b) \<longrightarrow> snd st' v = snd st v) \<and>
     (\<forall>t c. (\<forall>v\<in>set (uses_block b) \<union> set (defs_block b). t v = snd st' v) \<longrightarrow>
        processBlock toIValue b (c, t) = Inr (c, t))"
proof (induction toIValue n st and toIValue ns st and toIValue b st
    arbitrary: st' and st' and st' rule: processNode_processNodes_processBlock.induct)
  case (1 toIValue k ins outs bs sch op st)
  let ?n = "Node k ins outs bs sch op"
  obtain c s where st: "st = (c, s)" by (cases st)
  show ?case
  proof (cases "k = prim_If")
    case False
    define busy where
      "busy = (\<lambda>s0. is_aten k \<and> list_ex (\<lambda>v. cast_TensorType (s0 v) \<noteq> None) outs \<and> op)"
    have eq: "processNode toIValue ?n (c0, s0) =
        (if busy s0
         then (case defaultDeviceProp toIValue ?n s0 of
                 Inl e \<Rightarrow> Inl e
               | Inr (c', s') \<Rightarrow> Inr (c0 \<or> c', s'))
         else Inr (c0, s0))" for c0 s0
      unfolding busy_def using processNode_not_If [of ?n toIValue c0 s0] False by simp
    have busy_cong: "busy t = busy s0" if "\<forall>v\<in>set outs. t v = s0 v" for t s0
      unfolding busy_def using that by (auto simp: list_ex_iff)
    have disj: "set (outputs ?n) \<inter> set (inputs ?n) = {}"
      using "1.prems"(1) by auto
    show ?thesis
    proof (cases "busy s")
      case idle: False
      have st': "st' = st"
        using "1.prems"(2) idle unfolding st eq by simp
      have "processNode toIValue ?n (c0, t) = Inr (c0, t)"
        if "\<forall>v\<in>set (uses_node ?n) \<union> set (defs_node ?n). t v = snd st' v" for t c0
      proof -
        have "\<forall>v\<in>set outs. t v = s v" using that st' st by auto
        then have "\<not> busy t" using idle busy_cong by blast
        then show ?thesis unfolding eq by simp
      qed
      then show ?thesis using st' by auto
    next
      case True
      then obtain c' s' where d: "defaultDeviceProp toIValue ?n s = Inr (c', s')"
        and st': "st' = (c \<or> c', s')"
        using "1.prems"(2) unfolding st eq by (auto split: sum.splits)
      from defaultDeviceProp_settled [OF disj d]
      have fr: "\<forall>v. v \<notin> set outs \<longrightarrow> s' v = s v"
        and se: "\<forall>t. (\<forall>v\<in>set ins \<union> set outs. t v = s' v) \<longrightarrow>
              defaultDeviceProp toIValue ?n t = Inr (False, t)"
        by auto
      have "processNode toIValue ?n (c0, t) = Inr (c0, t)"
        if "\<forall>v\<in>set (uses_node ?n) \<union> set (defs_node ?n). t v = snd st' v" for t c0
      proof -
        have "\<forall>v\<in>set ins \<union> set outs. t v = s' v" using that st' by auto
        then have "defaultDeviceProp toIValue ?n t = Inr (False, t)" using se by blast
        then show ?thesis unfolding eq by simp
      qed
      then show ?thesis using st' st fr by auto
    qed
  next
    case True
    obtain tb fb rest where bs: "bs = tb # fb # rest"
      using "1.prems"(2) True by (auto split: list.splits)
    obtain st1 where r1: "processBlock toIValue tb st = Inr st1"
      using "1.prems"(2) True bs by (auto split: sum.splits)
    obtain c2 s2 where r2: "processBlock toIValue fb st1 = Inr (c2, s2)"
      using "1.prems"(2) True bs r1 by (auto split: sum.splits)
    obtain cm s3 where r3: "mergeAndApplyTensorProps (block_outputs tb) (block_outputs fb)
          outs s2 = Inr (cm, s3)"
      and st': "st' = (c2, s3)"
      using "1.prems"(2) True bs r1 r2 by (auto split: sum.splits)
    have run: "processNode toIValue ?n (c0, t) =
        (case processBlock toIValue tb (c0, t) of
           Inl e \<Rightarrow> Inl e
         | Inr st1 \<Rightarrow>
             (case processBlock toIValue fb st1 of
                Inl e \<Rightarrow> Inl e
              | Inr (ch, s2) \<Rightarrow>
                  (case mergeAndApplyTensorProps (block_outputs tb) (block_outputs fb) outs s2 of
                     Inl e \<Rightarrow> Inl e
                   | Inr (x, s3) \<Rightarrow> Inr (ch, s3))))" for c0 t
      using True bs by simp
    have ssa: "ssa_block tb" "ssa_block fb" "distinct outs"
      using "1.prems"(1) bs by auto
    have o_tb: "set outs \<inter> (set (uses_block tb) \<union> set (defs_block tb)) = {}"
      and o_fb: "set outs \<inter> (set (uses_block fb) \<union> set (defs_block fb)) = {}"
      and fb_tb: "set (defs_block fb) \<inter> (set (uses_block tb) \<union> set (defs_block tb)) = {}"
      using "1.prems"(1) bs by auto
    have o_src: "set outs \<inter> (set (block_outputs tb) \<union> set (block_outputs fb)) = {}"
      using o_tb o_fb block_outputs_used [of tb] block_outputs_used [of fb] by blast
    from "1.IH"(1) [OF True bs refl ssa(1) r1]
    have f1: "\<forall>v. v \<notin> set (defs_block tb) \<longrightarrow> snd st1 v = snd st v"
      and s1: "\<forall>t c. (\<forall>v\<in>set (uses_block tb) \<union> set (defs_block tb). t v = snd st1 v) \<longrightarrow>
          processBlock toIValue tb (c, t) = Inr (c, t)"
      by auto
    from "1.IH"(2) [OF True bs refl r1 ssa(2) r2]
    have f2: "\<forall>v. v \<notin> set (defs_block fb) \<longrightarrow> s2 v = snd st1 v"
      and s2: "\<forall>t c. (\<forall>v\<in>set (uses_block fb) \<union> set (defs_block fb). t v = s2 v) \<longrightarrow>
          processBlock toIValue fb (c, t) = Inr (c, t)"
      by auto
    have f3: "\<forall>v. v \<notin> set outs \<longrightarrow> s3 v = s2 v"
      using merge_frame [OF r3] by blast
    have frame: "\<forall>v. v \<notin> set (defs_node ?n) \<longrightarrow> snd st' v = snd st v"
      using f1 f2 f3 st' bs by auto
    have "processNode toIValue ?n (c0, t) = Inr (c0, t)"
      if agree: "\<forall>v\<in>set (uses_node ?n) \<union> set (defs_node ?n). t v = snd st' v" for t c0
    proof -
      have a3: "\<forall>v\<in>set (uses_node ?n) \<union> set (defs_node ?n). t v = s3 v"
        using agree st' by simp
      have "\<forall>v\<in>set (uses_block tb) \<union> set (defs_block tb). t v = snd st1 v"
      proof
        fix v assume v: "v \<in> set (uses_block tb) \<union> set (defs_block tb)"
        then have "t v = s3 v" using a3 bs by auto
        moreover have "v \<notin> set outs" using v o_tb by blast
        moreover have "v \<notin> set (defs_block fb)" using v fb_tb by blast
        ultimately show "t v = snd st1 v" using f2 f3 by simp
      qed
      then have p1: "processBlock toIValue tb (c0, t) = Inr (c0, t)" using s1 by blast
      have "\<forall>v\<in>set (uses_block fb) \<union> set (defs_block fb). t v = s2 v"
      proof
        fix v assume v: "v \<in> set (uses_block fb) \<union> set (defs_block fb)"
        then have "t v = s3 v" using a3 bs by auto
        moreover have "v \<notin> set outs" using v o_fb by blast
        ultimately show "t v = s2 v" using f3 by simp
      qed
      then have p2: "processBlock toIValue fb (c0, t) = Inr (c0, t)" using s2 by blast
      have "\<forall>v\<in>set (block_outputs tb) \<union> set (block_outputs fb) \<union> set outs. t v = s3 v"
        using a3 bs block_outputs_used [of tb] block_outputs_used [of fb] by auto
      then have p3: "mergeAndApplyTensorProps (block_outputs tb) (block_outputs fb) outs t =
          Inr (False, t)"
        using merge_settled [OF r3 ssa(3)] o_src by blast
      show ?thesis unfolding run p1 by (simp add: p2 p3)
    qed
    then show ?thesis using frame by blast
  qed
next
  case (2 toIValue st)
  then show ?case by simp
next
  case (3 toIValue n ns st)
  obtain st1 where r1: "processNode toIValue n st = Inr st1"
    and r2: "processNodes toIValue ns st1 = Inr st'"
    using "3.prems"(2) by (auto split: sum.splits)
  have ssa: "ssa_node n" "ssa_nodes ns"
    and later: "set (defs_nodes ns) \<inter> (set (uses_node n) \<union> set (defs_node n)) = {}"
    using "3.prems"(1) by auto
  from "3.IH"(1) [OF ssa(1) r1]
  have f1: "\<forall>v. v \<notin> set (defs_node n) \<longrightarrow> snd st1 v = snd st v"
    and s1: "\<forall>t c. (\<forall>v\<in>set (uses_node n) \<union> set (defs_node n). t v = snd st1 v) \<longrightarrow>
        processNode toIValue n (c, t) = Inr (c, t)"
    by auto
  from "3.IH"(2) [OF r1 ssa(2) r2]
  have f2: "\<forall>v. v \<notin> set (defs_nodes ns) \<longrightarrow> snd st' v = snd st1 v"
    and s2: "\<forall>t c. (\<forall>v\<in>set (uses_nodes ns) \<union> set (defs_nodes ns). t v = snd st' v) \<longrightarrow>
        processNodes toIValue ns (c, t) = Inr (c, t)"
    by auto
  have "processNodes toIValue (n # ns) (c0, t) = Inr (c0, t)"
    if agree: "\<forall>v\<in>set (uses_nodes (n # ns)) \<union> set (defs_nodes (n # ns)). t v = snd st' v"
    for t c0
  proof -
    have "\<forall>v\<in>set (uses_node n) \<union> set (defs_node n). t v = snd st1 v"
    proof
      fix v assume v: "v \<in> set (uses_node n) \<union> set (defs_node n)"
      then have "t v = snd st' v" using agree by auto
      moreover have "v \<notin> set (defs_nodes ns)" using v later by blast
      ultimately show "t v = snd st1 v" using f2 by simp
    qed
    then have p1: "processNode toIValue n (c0, t) = Inr (c0, t)" using s1 by blast
    have "\<forall>v\<in>set (uses_nodes ns) \<union> set (defs_nodes ns). t v = snd st' v"
      using agree by auto
    then have p2: "processNodes toIValue ns (c0, t) = Inr (c0, t)" using s2 by blast
    show ?thesis by (simp add: p1 p2)
  qed
  moreover have "\<forall>v. v \<notin> set (defs_nodes (n # ns)) \<longrightarrow> snd st' v = snd st v"
    using f1 f2 by auto
  ultimately show ?case by blast
next
  case (4 toIValue ns outs st)
  from "4.IH" [of st'] "4.prems" show ?case by auto
qed

text \<open>
  C4. On a graph in single-assignment form, when a run of the pass returns, a second
  run on the resulting store returns \<^verbatim>\<open>changed = false\<close> and leaves the store, hence the
  device annotation of every value, as it is. Each single write is idempotent too:
  once \<^verbatim>\<open>setDeviceType\<close> has written a device to a value, writing the same device again
  reports no change and changes nothing.
\<close>

theorem pass_idempotent:
  assumes "ssa_block (block graph)"
    and "DeviceTypePropagation toIValue graph s = Inr (changed, s1)"
  shows "DeviceTypePropagation toIValue graph s1 = Inr (False, s1) \<and>
         (\<forall>v dev s0 c s'. setDeviceType v dev s0 = Inr (c, s') \<longrightarrow>
            setDeviceType v dev s' = Inr (False, s'))"
proof -
  have run: "processBlock toIValue (block graph) (False, s) = Inr (changed, s1)"
    using assms(2) by (simp add: DeviceTypePropagation_def run_def)
  from settled(3) [OF assms(1) run]
  have "\<forall>t c. (\<forall>v\<in>set (uses_block (block graph)) \<union> set (defs_block (block graph)).
            t v = s1 v) \<longrightarrow> processBlock toIValue (block graph) (c, t) = Inr (c, t)"
    by simp
  then have "processBlock toIValue (block graph) (False, s1) = Inr (False, s1)"
    by blast
  then have again: "DeviceTypePropagation toIValue graph s1 = Inr (False, s1)"
    by (simp add: DeviceTypePropagation_def run_def)
  have "setDeviceType v dev s' = Inr (False, s')"
    if "setDeviceType v dev s0 = Inr (c, s')" for v dev s0 c s'
    using that
    by (cases "s0 v") (auto simp: setDeviceType_def withDevice_def Let_def split: if_splits)
  then show ?thesis using again by blast
qed

text \<open>
  The theorem at a graph with an operator and a conditional with an operator in each
  branch: the first run annotates four values with \<^verbatim>\<open>cuda:0\<close> and returns true, the
  second returns false.
\<close>

theorem pass_idempotent_witness:
  "DeviceTypePropagation (\<lambda>_. None) graph_relu_if store_relu_if =
     Inr (True, store_relu_if(2 := tensor_on (Some cuda0) None, 3 := tensor_on (Some cuda0) None,
                   4 := tensor_on (Some cuda0) None, 5 := tensor_on (Some cuda0) None)) \<and>
   DeviceTypePropagation (\<lambda>_. None) graph_relu_if
       (store_relu_if(2 := tensor_on (Some cuda0) None, 3 := tensor_on (Some cuda0) None,
                   4 := tensor_on (Some cuda0) None, 5 := tensor_on (Some cuda0) None)) =
     Inr (False, store_relu_if(2 := tensor_on (Some cuda0) None, 3 := tensor_on (Some cuda0) None,
                   4 := tensor_on (Some cuda0) None, 5 := tensor_on (Some cuda0) None))"
proof -
  let ?s1 = "store_relu_if(2 := tensor_on (Some cuda0) None, 3 := tensor_on (Some cuda0) None,
                   4 := tensor_on (Some cuda0) None, 5 := tensor_on (Some cuda0) None)"
  have ssa: "ssa_block (block graph_relu_if)"
    by simp
  have first: "DeviceTypePropagation (\<lambda>_. None) graph_relu_if store_relu_if = Inr (True, ?s1)"
    by (simp add: DeviceTypePropagation_def run_def processAtenOps_def defaultDeviceProp_def
        propWithNoDevice_def setReturnsToDevice_def setDeviceType_def withDevice_def
        mergeAndApplyTensorProps_def is_cpu_zerodim_def is_cpu_def)
  from pass_idempotent [OF ssa first] first show ?thesis
    by blast
qed

end
